theory Spec2Isabelle
  imports Main
begin

chapter \<open>The model\<close>

section \<open>Python exceptions\<close>

text \<open>
  The exception classes that the modules \<^verbatim>\<open>_sqlite_utils.py\<close> and \<^verbatim>\<open>_utils.py\<close>
  raise, catch or test for, together with the built-in classes above them.
  \<open>Sqlite3Error\<close> ... \<open>NotSupportedError\<close> are the classes of the \<^verbatim>\<open>sqlite3\<close> module
  (\<open>Sqlite3IntegrityError\<close> is \<^verbatim>\<open>sqlite3.IntegrityError\<close>); \<open>DBError\<close> ... \<open>UsageError\<close> are
  the classes that \<^verbatim>\<open>_sqlite_utils.py\<close> declares (\<open>IntegrityError\<close> is its own class of
  that name).  \<open>UserException name\<close> is a class that derives directly from
  \<^verbatim>\<open>Exception\<close>, such as the ones callers pass as \<^verbatim>\<open>exc_type\<close> or build in \<^verbatim>\<open>make_exc\<close>.
\<close>

datatype py_class =
    BaseException | KeyboardInterrupt | SystemExit | GeneratorExit
  | Exception | AssertionError | ValueError | TypeError
  | Sqlite3Error | InterfaceError | DatabaseError | DataError | OperationalError
  | Sqlite3IntegrityError | InternalError | ProgrammingError | NotSupportedError
  | DBError | SchemaVersionError | IntegrityError | RequirementError | IdError
  | UsageError
  | UserException string

text \<open>The method resolution order of each class: the class itself and its bases.\<close>

fun mro :: "py_class \<Rightarrow> py_class list" where
  "mro BaseException = [BaseException]"
| "mro KeyboardInterrupt = [KeyboardInterrupt, BaseException]"
| "mro SystemExit = [SystemExit, BaseException]"
| "mro GeneratorExit = [GeneratorExit, BaseException]"
| "mro Exception = [Exception, BaseException]"
| "mro AssertionError = [AssertionError, Exception, BaseException]"
| "mro ValueError = [ValueError, Exception, BaseException]"
| "mro TypeError = [TypeError, Exception, BaseException]"
| "mro Sqlite3Error = [Sqlite3Error, Exception, BaseException]"
| "mro InterfaceError = [InterfaceError, Sqlite3Error, Exception, BaseException]"
| "mro DatabaseError = [DatabaseError, Sqlite3Error, Exception, BaseException]"
| "mro DataError = [DataError, DatabaseError, Sqlite3Error, Exception, BaseException]"
| "mro OperationalError =
     [OperationalError, DatabaseError, Sqlite3Error, Exception, BaseException]"
| "mro Sqlite3IntegrityError =
     [Sqlite3IntegrityError, DatabaseError, Sqlite3Error, Exception, BaseException]"
| "mro InternalError =
     [InternalError, DatabaseError, Sqlite3Error, Exception, BaseException]"
| "mro ProgrammingError =
     [ProgrammingError, DatabaseError, Sqlite3Error, Exception, BaseException]"
| "mro NotSupportedError =
     [NotSupportedError, DatabaseError, Sqlite3Error, Exception, BaseException]"
| "mro DBError = [DBError, Exception, BaseException]"
| "mro SchemaVersionError = [SchemaVersionError, DBError, Exception, BaseException]"
| "mro IntegrityError = [IntegrityError, DBError, Exception, BaseException]"
| "mro RequirementError = [RequirementError, DBError, Exception, BaseException]"
| "mro IdError = [IdError, DBError, Exception, BaseException]"
| "mro UsageError = [UsageError, DBError, Exception, BaseException]"
| "mro (UserException name) = [UserException name, Exception, BaseException]"

text \<open>
  An exception object: its class, the message it was built with (\<^verbatim>\<open>args[0]\<close>) and its
  \<^verbatim>\<open>__cause__\<close>.
\<close>

datatype exc = Exc (cls: py_class) (msg: string) (cause: "exc option")

definition isinstance :: "exc \<Rightarrow> py_class \<Rightarrow> bool" where
  "isinstance e c = (c \<in> set (mro (cls e)))"

text \<open>\<^verbatim>\<open>raise new from e\<close> and \<^verbatim>\<open>raise new from None\<close> set \<^verbatim>\<open>new.__cause__\<close>.\<close>

definition raise_from :: "exc \<Rightarrow> exc option \<Rightarrow> exc" where
  "raise_from new c = Exc (cls new) (msg new) c"

text \<open>
  \<^verbatim>\<open>DBError.display_name\<close> and its overrides; \<^verbatim>\<open>DBError.__str__\<close> puts it before the
  message, every other class prints the message alone.
\<close>

fun display_name :: "py_class \<Rightarrow> string option" where
  "display_name DBError = Some ''database error''"
| "display_name SchemaVersionError = Some ''schema version error''"
| "display_name IntegrityError = Some ''integrity error''"
| "display_name RequirementError = Some ''database requirement error''"
| "display_name IdError = Some ''application id error''"
| "display_name UsageError = Some ''usage error''"
| "display_name _ = None"

definition str_exc :: "exc \<Rightarrow> string" where
  "str_exc e = (case display_name (cls e) of
                  Some d \<Rightarrow> d @ '': '' @ msg e
                | None \<Rightarrow> msg e)"

section \<open>\<^verbatim>\<open>_sqlite_utils.rowcount_exactly_one\<close>\<close>

text \<open>
  \<^verbatim>\<open>
  def rowcount_exactly_one(cursor, make_exc):
      if cursor.rowcount == 0:
          raise make_exc()
      assert cursor.rowcount == 1, "shouldn't have more than 1 row"
  \<close>
  The cursor is read for its \<^verbatim>\<open>rowcount\<close> only, so the model takes that integer;
  \<open>make_exc\<close> is the exception the callback builds.
\<close>

definition rowcount_exactly_one :: "int \<Rightarrow> exc \<Rightarrow> exc + unit" where
  "rowcount_exactly_one rowcount make_exc =
     (if rowcount = 0 then Inl make_exc
      else if rowcount = 1 then Inr ()
      else Inl (Exc AssertionError ''shouldn't have more than 1 row'' None))"

section \<open>\<^verbatim>\<open>_utils.chunks\<close>\<close>

text \<open>
  \<^verbatim>\<open>
  def chunks(n, iterable):
      it = iter(iterable)
      while True:
          chunk = itertools.islice(it, n)
          try:
              first = next(chunk)
          except StopIteration:
              break
          yield itertools.chain([first], chunk)
  \<close>
  The iterable is a finite list. Each chunk is a lazy view of the shared iterator; the
  model is the sequence of chunks a consumer sees who exhausts every chunk before asking
  for the next one. \<open>take n it\<close> is what \<^verbatim>\<open>islice(it, n)\<close> yields and \<open>drop n it\<close> what is
  left of the iterator afterwards. The loop stops when the slice is empty: at the end
  of the input, and at once when \<open>n = 0\<close>.
\<close>

function chunks_loop :: "nat \<Rightarrow> 'a list \<Rightarrow> 'a list list" where
  "chunks_loop n it =
     (case take n it of
        [] \<Rightarrow> []
      | first # chunk \<Rightarrow> (first # chunk) # chunks_loop n (drop n it))"
  by pat_completeness auto
termination
proof (relation "measure (\<lambda>(n, it). length it)")
  show "wf (measure (\<lambda>(n, it). length it))" by simp
next
  fix n :: nat and it :: "'a list" and first chunk
  assume "take n it = first # chunk"
  then have "n \<noteq> 0" and "it \<noteq> []"
    by (cases n, simp_all) auto
  then show "((n, drop n it), (n, it)) \<in> measure (\<lambda>(n, it). length it)" by simp
qed

declare chunks_loop.simps [simp del]

text \<open>
  \<^verbatim>\<open>sys.maxsize\<close>, the largest \<^verbatim>\<open>Py_ssize_t\<close>: \<open>2\<^sup>6\<^sup>3 - 1\<close> on a 64-bit build of the
  interpreter, which is the build modelled here.
\<close>

definition sys_maxsize :: int where
  "sys_maxsize = 9223372036854775807"

text \<open>
  \<^verbatim>\<open>islice\<close> accepts as its stop an integer from 0 to \<^verbatim>\<open>sys.maxsize\<close> only: a negative
  stop, and one above \<^verbatim>\<open>sys.maxsize\<close>, are refused with a \<^verbatim>\<open>ValueError\<close>, raised when the
  generator first runs, whatever the input.
\<close>

definition chunks :: "int \<Rightarrow> 'a list \<Rightarrow> exc + 'a list list" where
  "chunks n iterable =
     (if n < 0 \<or> sys_maxsize < n
      then Inl (Exc ValueError
        ''Stop argument for islice() must be None or an integer: 0 <= x <= sys.maxsize.''
        None)
      else Inr (chunks_loop (nat n) iterable))"

section \<open>\<^verbatim>\<open>_sqlite_utils.wrap_exceptions\<close>\<close>

text \<open>
  \<^verbatim>\<open>str.lower()\<close>, \<^verbatim>\<open>s.startswith(p)\<close> and the substring test \<^verbatim>\<open>sub in s\<close>, on ASCII text: a string is a list of
  bytes, and only the letters \<open>A\<close> to \<open>Z\<close> have a lower-case form.
\<close>

definition lower_char :: "char \<Rightarrow> char" where
  "lower_char c =
     (case map_of (zip ''ABCDEFGHIJKLMNOPQRSTUVWXYZ'' ''abcdefghijklmnopqrstuvwxyz'') c of
        Some l \<Rightarrow> l
      | None \<Rightarrow> c)"

definition lower :: "string \<Rightarrow> string" where
  "lower s = map lower_char s"

fun startswith :: "string \<Rightarrow> string \<Rightarrow> bool" where
  "startswith s [] = True"
| "startswith [] (p # ps) = False"
| "startswith (c # cs) (p # ps) = (c = p \<and> startswith cs ps)"

fun contains :: "string \<Rightarrow> string \<Rightarrow> bool" where
  "contains sub [] = (sub = [])"
| "contains sub (c # cs) = (startswith (c # cs) sub \<or> contains sub cs)"

text \<open>
  \<^verbatim>\<open>
  @contextmanager
  def wrap_exceptions(exc_type, message="unexpected error"):
      try:
          yield
      except sqlite3.OperationalError as e:
          raise exc_type(message) from e
      except sqlite3.ProgrammingError as e:
          if "cannot operate on a closed database" in str(e).lower():
              raise exc_type("operation on closed database") from None
          raise
      except sqlite3.DatabaseError as e:
          if type(e) is sqlite3.DatabaseError:
              if "file is not a database" in str(e).lower():
                  raise exc_type(message) from e
          raise
  \<close>
  The block under the \<^verbatim>\<open>with\<close> either returns (\<open>Inr\<close>) or raises (\<open>Inl\<close>); the context
  manager maps that outcome to the outcome of the whole statement. \<open>exc_type\<close> is the
  callable that builds the wrapping exception from a message. The \<^verbatim>\<open>except\<close> clauses are
  tried in the source's order, each an \<^verbatim>\<open>isinstance\<close> test.
\<close>

definition wrap_exceptions :: "(string \<Rightarrow> exc) \<Rightarrow> string \<Rightarrow> exc + 'a \<Rightarrow> exc + 'a" where
  "wrap_exceptions exc_type message body =
     (case body of
        Inr x \<Rightarrow> Inr x
      | Inl e \<Rightarrow>
          if isinstance e OperationalError then
            Inl (raise_from (exc_type message) (Some e))
          else if isinstance e ProgrammingError then
            (if contains ''cannot operate on a closed database'' (lower (str_exc e))
             then Inl (raise_from (exc_type ''operation on closed database'') None)
             else Inl e)
          else if isinstance e DatabaseError then
            (if cls e = DatabaseError
                \<and> contains ''file is not a database'' (lower (str_exc e))
             then Inl (raise_from (exc_type message) (Some e))
             else Inl e)
          else Inl e)"

text \<open>
  The exception type the storage layer passes to \<^verbatim>\<open>wrap_exceptions\<close>: a class deriving
  from \<^verbatim>\<open>Exception\<close>, built from its message.
\<close>

definition StorageError :: "string \<Rightarrow> exc" where
  "StorageError m = Exc (UserException ''StorageError'') m None"

section \<open>\<^verbatim>\<open>_utils.join_paginated_iter\<close>\<close>

text \<open>
  \<^verbatim>\<open>
  def join_paginated_iter(get_things, chunk_size):
      last = None
      while True:
          things = get_things(chunk_size, last)
          if not chunk_size:
              yield from (t for t, _ in things)
              break
          things = list(things)
          if not things:
              break
          _, last = things[-1]
          yield from (t for t, _ in things)
          if len(things) < chunk_size:
              break
  \<close>
  The page function is a function of its two arguments, returning the page as a list of
  (item, cursor) pairs. The loop can run forever (a page function that always returns
  full pages), so it takes fuel, one unit per call of \<open>get_things\<close>: \<open>None\<close> means the
  fuel ran out before the generator finished. A finished run returns the items
  yielded, in order, and the calls made, in order, each as its pair of arguments.
  \<open>last_cursor\<close> is the source's variable \<^verbatim>\<open>last\<close>.
\<close>

fun join_paginated_loop ::
  "nat \<Rightarrow> (int \<Rightarrow> 'c option \<Rightarrow> ('u \<times> 'c) list) \<Rightarrow> int \<Rightarrow> 'c option
    \<Rightarrow> ('u list \<times> (int \<times> 'c option) list) option" where
  "join_paginated_loop 0 get_things chunk_size last_cursor = None"
| "join_paginated_loop (Suc fuel) get_things chunk_size last_cursor =
     (let things = get_things chunk_size last_cursor in
      if chunk_size = 0 then Some (map fst things, [(chunk_size, last_cursor)])
      else if things = [] then Some ([], [(chunk_size, last_cursor)])
      else if int (length things) < chunk_size
        then Some (map fst things, [(chunk_size, last_cursor)])
      else
        (case join_paginated_loop fuel get_things chunk_size (Some (snd (last things))) of
           None \<Rightarrow> None
         | Some (items, calls) \<Rightarrow>
             Some (map fst things @ items, (chunk_size, last_cursor) # calls)))"

definition join_paginated_iter ::
  "nat \<Rightarrow> (int \<Rightarrow> 'c option \<Rightarrow> ('u \<times> 'c) list) \<Rightarrow> int
    \<Rightarrow> ('u list \<times> (int \<times> 'c option) list) option" where
  "join_paginated_iter fuel get_things chunk_size =
     join_paginated_loop fuel get_things chunk_size None"

text \<open>
  The pages of a paged source, to state what the generator does: \<open>cursor_from c k\<close> is
  the cursor after \<open>k\<close> pages when the first call gets the cursor \<open>c\<close> (each page hands
  the cursor of its last pair to the next call), \<open>page k\<close> is the page the call number
  \<open>k\<close> returns when the first call gets \<^verbatim>\<open>None\<close>, and a page is short when it is empty
  or has fewer than \<open>chunk_size\<close> pairs.
\<close>

fun cursor_from ::
  "(int \<Rightarrow> 'c option \<Rightarrow> ('u \<times> 'c) list) \<Rightarrow> int \<Rightarrow> 'c option \<Rightarrow> nat \<Rightarrow> 'c option" where
  "cursor_from get_things chunk_size c 0 = c"
| "cursor_from get_things chunk_size c (Suc k) =
     cursor_from get_things chunk_size (Some (snd (last (get_things chunk_size c)))) k"

definition short_at :: "(int \<Rightarrow> 'c option \<Rightarrow> ('u \<times> 'c) list) \<Rightarrow> int \<Rightarrow> 'c option \<Rightarrow> bool" where
  "short_at get_things chunk_size c =
     (get_things chunk_size c = [] \<or> int (length (get_things chunk_size c)) < chunk_size)"

definition page :: "(int \<Rightarrow> 'c option \<Rightarrow> ('u \<times> 'c) list) \<Rightarrow> int \<Rightarrow> nat \<Rightarrow> ('u \<times> 'c) list" where
  "page get_things chunk_size k =
     get_things chunk_size (cursor_from get_things chunk_size None k)"

definition short_page :: "(int \<Rightarrow> 'c option \<Rightarrow> ('u \<times> 'c) list) \<Rightarrow> int \<Rightarrow> nat \<Rightarrow> bool" where
  "short_page get_things chunk_size k =
     (page get_things chunk_size k = []
      \<or> int (length (page get_things chunk_size k)) < chunk_size)"

section \<open>Formatting integers\<close>

text \<open>
  \<^verbatim>\<open>str(n)\<close> (also \<^verbatim>\<open>f"{n}"\<close> and \<^verbatim>\<open>f"{n!r}"\<close>) and \<^verbatim>\<open>f"{n:x}"\<close> for an integer: decimal
  and lower-case hexadecimal digits, a minus sign before a negative number.
\<close>

definition digit_char :: "nat \<Rightarrow> char" where
  "digit_char d = ''0123456789abcdef'' ! d"

fun str_nat :: "nat \<Rightarrow> string" where
  "str_nat n = (if n < 10 then [digit_char n]
                else str_nat (n div 10) @ [digit_char (n mod 10)])"

fun hex_nat :: "nat \<Rightarrow> string" where
  "hex_nat n = (if n < 16 then [digit_char n]
                else hex_nat (n div 16) @ [digit_char (n mod 16)])"

declare str_nat.simps [simp del] hex_nat.simps [simp del]

definition str_int :: "int \<Rightarrow> string" where
  "str_int i = (if i < 0 then ''-'' @ str_nat (nat (- i)) else str_nat (nat i))"

definition hex_int :: "int \<Rightarrow> string" where
  "hex_int i = (if i < 0 then ''-'' @ hex_nat (nat (- i)) else hex_nat (nat i))"

section \<open>The database connection\<close>

text \<open>
  The persistent content of a database, as far as \<^verbatim>\<open>_sqlite_utils.py\<close> reads or writes
  it: the two integer pragmas, the rows of \<^verbatim>\<open>sqlite_master\<close> (one name per schema
  object) and the rows that \<^verbatim>\<open>PRAGMA foreign_key_check\<close> reports in this content (one
  number per violating row).
\<close>

record database =
  user_version :: int
  application_id :: int
  sqlite_master :: "string list"
  foreign_key_violations :: "int list"

text \<open>
  The statements the module executes. \<open>PragmaGet p\<close> is \<^verbatim>\<open>f"PRAGMA {p};"\<close> and
  \<open>PragmaSet p v\<close> is \<^verbatim>\<open>f"PRAGMA {p} = {v};"\<close>; \<open>PragmaForeignKeysSet b\<close> is
  \<^verbatim>\<open>PRAGMA foreign_keys = ON;\<close> or \<^verbatim>\<open>OFF\<close>.
\<close>

datatype sql =
    Begin | Commit | Rollback
  | PragmaForeignKeys
  | PragmaForeignKeysSet bool
  | PragmaGet string
  | PragmaSet string int
  | PragmaForeignKeyCheck
  | SelectCountSqliteMaster

text \<open>The functions a migration is configured with: \<^verbatim>\<open>create\<close> and \<^verbatim>\<open>migrations[v]\<close>.\<close>

datatype callback = Create | Migration int

text \<open>
  What a connection has been asked to do, in order: the statements executed on it with
  \<^verbatim>\<open>db.execute\<close>, the functions called with it, and the commits that the \<^verbatim>\<open>sqlite3\<close>
  module makes by itself when \<^verbatim>\<open>None\<close> is assigned to \<^verbatim>\<open>isolation_level\<close> (see
  \<open>set_isolation_level\<close> below).
\<close>

datatype event = Executed sql | Called callback | ImplicitCommit

text \<open>
  A \<^verbatim>\<open>sqlite3.Connection\<close>: its \<^verbatim>\<open>isolation_level\<close> and \<^verbatim>\<open>in_transaction\<close> attributes, the
  \<^verbatim>\<open>foreign_keys\<close> setting (a setting of the connection, not of the file), the content
  its statements see, the content as it was when the open transaction began (what
  \<^verbatim>\<open>ROLLBACK\<close> goes back to), and the log of what it was asked to do.
\<close>

record connection =
  isolation_level :: "string option"
  in_transaction :: bool
  foreign_keys :: bool
  content :: database
  at_begin :: database
  log :: "event list"

text \<open>
  An action on a connection returns or raises, and leaves the connection changed.
\<close>

type_synonym 'a action = "connection \<Rightarrow> (exc + 'a) \<times> connection"

definition return :: "'a \<Rightarrow> 'a action" where
  "return x = (\<lambda>db. (Inr x, db))"

definition raise :: "exc \<Rightarrow> 'a action" where
  "raise e = (\<lambda>db. (Inl e, db))"

definition and_then :: "'a action \<Rightarrow> ('a \<Rightarrow> 'b action) \<Rightarrow> 'b action" where
  "and_then m f = (\<lambda>db. case m db of
                           (Inl e, db') \<Rightarrow> (Inl e, db')
                         | (Inr x, db') \<Rightarrow> f x db')"

text \<open>
  \<^verbatim>\<open>db.execute(statement)\<close>: what the engine does with each statement, and the rows it
  returns. This is the behaviour of SQLite that the module relies on (the third item
  is quoted from the docstring of \<^verbatim>\<open>foreign_keys_off\<close>):
  \<^item> \<^verbatim>\<open>BEGIN\<close> inside a transaction, and \<^verbatim>\<open>COMMIT\<close> or \<^verbatim>\<open>ROLLBACK\<close> outside one, fail with
    an \<^verbatim>\<open>OperationalError\<close>;
  \<^item> \<^verbatim>\<open>ROLLBACK\<close> brings back the content of the moment of \<^verbatim>\<open>BEGIN\<close>, the two integer
    pragmas included (they are stored in the file's header);
  \<^item> \<^verbatim>\<open>PRAGMA foreign_keys = ...\<close> inside a transaction "does not return an error; it
    simply has no effect";
  \<^item> \<^verbatim>\<open>user_version\<close> and \<^verbatim>\<open>application_id\<close> are signed 32-bit fields of the file's
    header: the engine reads the value of \<^verbatim>\<open>PRAGMA user_version = N\<close> as a 32-bit
    integer, and stores 0 when \<open>N\<close> does not fit (\<open>int32_value\<close>);
  \<^item> a pragma the model does not know returns no row and sets nothing.
  Every statement is logged, also one that fails.
\<close>

definition int32_value :: "int \<Rightarrow> int" where
  "int32_value v = (if - 2147483648 \<le> v \<and> v \<le> 2147483647 then v else 0)"

definition execute :: "sql \<Rightarrow> (int list list) action" where
  "execute stmt db =
     (let db = db\<lparr>log := log db @ [Executed stmt]\<rparr> in
      case stmt of
        Begin \<Rightarrow>
          if in_transaction db
          then (Inl (Exc OperationalError
                  ''cannot start a transaction within a transaction'' None), db)
          else (Inr [], db\<lparr>in_transaction := True, at_begin := content db\<rparr>)
      | Commit \<Rightarrow>
          if in_transaction db
          then (Inr [], db\<lparr>in_transaction := False\<rparr>)
          else (Inl (Exc OperationalError
                  ''cannot commit - no transaction is active'' None), db)
      | Rollback \<Rightarrow>
          if in_transaction db
          then (Inr [], db\<lparr>in_transaction := False, content := at_begin db\<rparr>)
          else (Inl (Exc OperationalError
                  ''cannot rollback - no transaction is active'' None), db)
      | PragmaForeignKeys \<Rightarrow> (Inr [[if foreign_keys db then 1 else 0]], db)
      | PragmaForeignKeysSet on \<Rightarrow>
          (Inr [], if in_transaction db then db else db\<lparr>foreign_keys := on\<rparr>)
      | PragmaGet pragma \<Rightarrow>
          if pragma = ''user_version'' then (Inr [[user_version (content db)]], db)
          else if pragma = ''application_id'' then (Inr [[application_id (content db)]], db)
          else (Inr [], db)
      | PragmaSet pragma v \<Rightarrow>
          if pragma = ''user_version''
          then (Inr [], db\<lparr>content := (content db)\<lparr>user_version := int32_value v\<rparr>\<rparr>)
          else if pragma = ''application_id''
          then (Inr [], db\<lparr>content := (content db)\<lparr>application_id := int32_value v\<rparr>\<rparr>)
          else (Inr [], db)
      | PragmaForeignKeyCheck \<Rightarrow>
          (Inr (map (\<lambda>r. [r]) (foreign_key_violations (content db))), db)
      | SelectCountSqliteMaster \<Rightarrow>
          (Inr [[int (length (sqlite_master (content db)))]], db))"

text \<open>
  \<^verbatim>\<open>(value,) = cursor.fetchone()\<close>: the single column of the first row. No row gives
  \<^verbatim>\<open>None\<close>, and a row of another width does not unpack: a \<^verbatim>\<open>TypeError\<close> or \<^verbatim>\<open>ValueError\<close>.
\<close>

definition fetchone_value :: "int list list \<Rightarrow> int action" where
  "fetchone_value rows =
     (case rows of
        [] \<Rightarrow> raise (Exc TypeError ''cannot unpack non-iterable NoneType object'' None)
      | row # _ \<Rightarrow>
          (case row of
             [v] \<Rightarrow> return v
           | _ \<Rightarrow> raise (Exc ValueError ''wrong number of values to unpack'' None)))"

section \<open>\<^verbatim>\<open>_sqlite_utils.ddl_transaction\<close>\<close>

text \<open>
  \<^verbatim>\<open>db.isolation_level = level\<close>. The attribute of \<^verbatim>\<open>sqlite3.Connection\<close> is a property
  whose setter does more than store the value: when the value is \<^verbatim>\<open>None\<close> it commits
  the transaction that is open, if one is (the setter calls the connection's
  \<^verbatim>\<open>commit()\<close>, which runs \<^verbatim>\<open>COMMIT\<close> when the engine is inside a transaction). Any other
  value is stored and nothing else happens. This is the module's transaction control
  as \<^verbatim>\<open>_sqlite_utils.py\<close> uses it, through \<^verbatim>\<open>isolation_level\<close>.
\<close>

definition set_isolation_level :: "string option \<Rightarrow> unit action" where
  "set_isolation_level level db =
     (if level = None \<and> in_transaction db
      then (Inr (), db\<lparr>isolation_level := None, log := log db @ [ImplicitCommit],
                       in_transaction := False\<rparr>)
      else (Inr (), db\<lparr>isolation_level := level\<rparr>))"

text \<open>
  \<^verbatim>\<open>
  @contextmanager
  def ddl_transaction(db):
      isolation_level = db.isolation_level
      try:
          db.isolation_level = None
          db.execute("BEGIN;")
          yield db
          db.execute("COMMIT;")
      except Exception:
          db.execute("ROLLBACK;")
          raise
      finally:
          db.isolation_level = isolation_level
  \<close>
  \<open>body\<close> is the block under the \<^verbatim>\<open>with\<close>. An exception of the \<^verbatim>\<open>try\<close> part (from the
  first assignment, \<^verbatim>\<open>BEGIN\<close>, the block or \<^verbatim>\<open>COMMIT\<close>) reaches the \<^verbatim>\<open>except\<close> clause only
  when it is an instance of \<^verbatim>\<open>Exception\<close>; an exception of \<^verbatim>\<open>ROLLBACK\<close> itself replaces it.
  The \<^verbatim>\<open>finally\<close> clause runs on every path, and an exception of its own would replace
  the outcome of the rest.
\<close>

definition ddl_transaction :: "'a action \<Rightarrow> 'a action" where
  "ddl_transaction body db =
     (let isolation_level' = isolation_level db;
          tried = and_then (set_isolation_level None) (\<lambda>_.
                  and_then (execute Begin) (\<lambda>_.
                  and_then body (\<lambda>x.
                  and_then (execute Commit) (\<lambda>_. return x)))) db;
          handled =
            (case tried of
               (Inr x, db') \<Rightarrow> (Inr x, db')
             | (Inl e, db') \<Rightarrow>
                 if isinstance e Exception
                 then and_then (execute Rollback) (\<lambda>_. raise e) db'
                 else (Inl e, db'));
          restored = set_isolation_level isolation_level' (snd handled)
      in case fst restored of
           Inl e \<Rightarrow> (Inl e, snd restored)
         | Inr _ \<Rightarrow> (fst handled, snd restored))"

section \<open>\<^verbatim>\<open>_sqlite_utils.foreign_keys_off\<close>\<close>

text \<open>
  \<^verbatim>\<open>
  @contextmanager
  def foreign_keys_off(db):
      assert not db.in_transaction, "foreign_keys_off must be used outside transactions"
      (foreign_keys,) = db.execute("PRAGMA foreign_keys;").fetchone()
      try:
          db.execute("PRAGMA foreign_keys = OFF;")
          yield db
      finally:
          db.execute(f"PRAGMA foreign_keys = {'ON' if foreign_keys else 'OFF'};")
  \<close>
  An exception of the \<^verbatim>\<open>finally\<close> clause replaces the outcome of the \<^verbatim>\<open>try\<close> part.
\<close>

definition foreign_keys_off :: "'a action \<Rightarrow> 'a action" where
  "foreign_keys_off body db =
     (if in_transaction db
      then (Inl (Exc AssertionError
              ''foreign_keys_off must be used outside transactions'' None), db)
      else
        and_then (execute PragmaForeignKeys) (\<lambda>rows.
        and_then (fetchone_value rows) (\<lambda>foreign_keys'. (\<lambda>db.
          (let tried = and_then (execute (PragmaForeignKeysSet False)) (\<lambda>_. body) db;
               restored = execute (PragmaForeignKeysSet (foreign_keys' \<noteq> 0)) (snd tried)
           in case fst restored of
                Inl e \<Rightarrow> (Inl e, snd restored)
              | Inr _ \<Rightarrow> (fst tried, snd restored))))) db)"

section \<open>Pragmas and checks\<close>

text \<open>
  \<^verbatim>\<open>
  def get_int_pragma(db, pragma):
      (value,) = db.execute(f"PRAGMA {pragma};").fetchone()
      assert isinstance(value, int), value  # for mypy
      return value

  def set_int_pragma(db, pragma, value, lower_bound=0):
      if not isinstance(value, int):
          raise ValueError(f"{pragma} must be an integer, got {value!r}")
      if lower_bound is not None and value < lower_bound:
          raise ValueError(f"{pragma} must be >={lower_bound}, got {value!r}")
      db.execute(f"PRAGMA {pragma} = {value};")

  def table_count(db):
      (value,) = db.execute("select count(*) from sqlite_master;").fetchone()
      assert isinstance(value, int), value  # for mypy
      return value

  def foreign_key_check(db):
      failed_checks = list(db.execute("PRAGMA foreign_key_check;"))
      if not failed_checks:
          return
      raise IntegrityError("FOREIGN KEY constraint failed")
  \<close>
  Values are integers by their type, so the \<^verbatim>\<open>isinstance\<close> tests pass.
\<close>

definition get_int_pragma :: "string \<Rightarrow> int action" where
  "get_int_pragma pragma = and_then (execute (PragmaGet pragma)) fetchone_value"

definition set_int_pragma :: "string \<Rightarrow> int \<Rightarrow> int option \<Rightarrow> unit action" where
  "set_int_pragma pragma v lower_bound =
     (if lower_bound \<noteq> None \<and> v < the lower_bound
      then raise (Exc ValueError
             (pragma @ '' must be >='' @ str_int (the lower_bound) @ '', got '' @ str_int v)
             None)
      else and_then (execute (PragmaSet pragma v)) (\<lambda>_. return ()))"

definition table_count :: "int action" where
  "table_count = and_then (execute SelectCountSqliteMaster) fetchone_value"

definition foreign_key_check :: "unit action" where
  "foreign_key_check =
     and_then (execute PragmaForeignKeyCheck) (\<lambda>failed_checks.
       if failed_checks = [] then return ()
       else raise (Exc IntegrityError ''FOREIGN KEY constraint failed'' None))"

section \<open>\<^verbatim>\<open>_sqlite_utils.HeavyMigration\<close>\<close>

text \<open>
  The functions \<^verbatim>\<open>create\<close> and \<^verbatim>\<open>migrations[v]\<close> get the connection while the
  transaction is open. The model gives them the content to read and change, and lets
  them raise: they run no \<^verbatim>\<open>BEGIN\<close>, \<^verbatim>\<open>COMMIT\<close> or \<^verbatim>\<open>ROLLBACK\<close> of their own and leave the
  connection's settings alone. What they leave behind when they raise is kept, as the
  engine keeps it until the rollback.
\<close>

type_synonym db_function = "database \<Rightarrow> exc option \<times> database"

definition call :: "callback \<Rightarrow> db_function \<Rightarrow> unit action" where
  "call name f db =
     (let db = db\<lparr>log := log db @ [Called name]\<rparr>;
          result = f (content db)
      in (case fst result of None \<Rightarrow> Inr () | Some e \<Rightarrow> Inl e,
          db\<lparr>content := snd result\<rparr>))"

text \<open>
  \<^verbatim>\<open>
  @dataclass
  class HeavyMigration:
      create: _DBFunction
      version: int  # must be positive
      migrations: Dict[int, _DBFunction]
      id: int = 0
  \<close>
  The field \<open>id'\<close> is the field \<^verbatim>\<open>id\<close> of the class.
\<close>

record HeavyMigration =
  create :: db_function
  version :: int
  migrations :: "int \<rightharpoonup> db_function"
  id' :: int

definition get_version :: "int action" where
  "get_version = get_int_pragma ''user_version''"

definition set_version :: "int \<Rightarrow> unit action" where
  "set_version v = set_int_pragma ''user_version'' v (Some 0)"

definition get_id :: "int action" where
  "get_id = get_int_pragma ''application_id''"

definition set_id :: "int \<Rightarrow> unit action" where
  "set_id i = set_int_pragma ''application_id'' i (Some 0)"

text \<open>
  The loop of \<^verbatim>\<open>migrate\<close>, over the list \<^verbatim>\<open>range(version, self.version)\<close>; \<open>db_version\<close>
  is the source's local \<^verbatim>\<open>version\<close>, the version read before the loop:
  \<^verbatim>\<open>
  for from_version in range(version, self.version):
      to_version = from_version + 1
      migration = self.migrations.get(from_version)
      if migration is None:
          raise SchemaVersionError(
              f"no migration from {from_version} to {to_version}; "
              f"expected migrations for all versions "
              f"later than {version}"
          )
      self.set_version(db, to_version)
      migration(db)
      try:
          foreign_key_check(db)
      except IntegrityError as e:
          raise IntegrityError(
              f"after migrating to version {to_version}: {e}"
          ) from None
  \<close>
\<close>

fun migrate_loop :: "HeavyMigration \<Rightarrow> int \<Rightarrow> int list \<Rightarrow> unit action" where
  "migrate_loop self db_version [] = return ()"
| "migrate_loop self db_version (from_version # rest) =
     (let to_version = from_version + 1 in
      case migrations self from_version of
        None \<Rightarrow>
          raise (Exc SchemaVersionError
            (''no migration from '' @ str_int from_version @ '' to '' @ str_int to_version
              @ ''; expected migrations for all versions later than '' @ str_int db_version)
            None)
      | Some migration \<Rightarrow>
          and_then (set_version to_version) (\<lambda>_.
          and_then (call (Migration from_version) migration) (\<lambda>_.
          and_then
            (\<lambda>db. case foreign_key_check db of
                     (Inl e, db') \<Rightarrow>
                       if isinstance e IntegrityError
                       then (Inl (Exc IntegrityError
                               (''after migrating to version '' @ str_int to_version
                                 @ '': '' @ str_exc e) None), db')
                       else (Inl e, db')
                   | (Inr u, db') \<Rightarrow> (Inr u, db')) (\<lambda>_.
          migrate_loop self db_version rest))))"

text \<open>
  The block of \<^verbatim>\<open>migrate\<close> under its \<^verbatim>\<open>with\<close> statement. \<open>id_read\<close> is the source's local
  \<^verbatim>\<open>id\<close>, bound only when \<^verbatim>\<open>self.id\<close> is non-zero.
  \<^verbatim>\<open>
  if self.id:
      id = self.get_id(db)
      if id and id != self.id:
          raise IdError(f"invalid id: 0x{id:x}")
  version = self.get_version(db)
  if not version:
      if table_count(db) != 0:
          raise DBError("database with no version already has tables")
      self.create(db)
      self.set_version(db, self.version)
      self.set_id(db, self.id)
      return
  if version == self.version:
      if self.id:
          if not id:
              raise IdError("database with version has missing id")
      return
  if version > self.version:
      raise SchemaVersionError(f"invalid version: {version}")
  for from_version in range(version, self.version):
      ...
  if self.id:
      id = self.get_id(db)
      if id != self.id:
          raise IdError(f"missing or invalid id after migration: 0x{id:x}")
  \<close>
\<close>

definition migrate_body :: "HeavyMigration \<Rightarrow> unit action" where
  "migrate_body self =
     and_then
       (if id' self \<noteq> 0
        then and_then get_id (\<lambda>i.
               if i \<noteq> 0 \<and> i \<noteq> id' self
               then raise (Exc IdError (''invalid id: 0x'' @ hex_int i) None)
               else return (Some i))
        else return None) (\<lambda>id_read.
     and_then get_version (\<lambda>db_version.
       if db_version = 0 then
         and_then table_count (\<lambda>n.
           if n \<noteq> 0
           then raise (Exc DBError ''database with no version already has tables'' None)
           else
             and_then (call Create (create self)) (\<lambda>_.
             and_then (set_version (version self)) (\<lambda>_.
             set_id (id' self))))
       else if db_version = version self then
         (if id' self \<noteq> 0 \<and> id_read = Some 0
          then raise (Exc IdError ''database with version has missing id'' None)
          else return ())
       else if db_version > version self then
         raise (Exc SchemaVersionError (''invalid version: '' @ str_int db_version) None)
       else
         and_then (migrate_loop self db_version [db_version..version self - 1]) (\<lambda>_.
           if id' self \<noteq> 0
           then and_then get_id (\<lambda>i.
                  if i \<noteq> id' self
                  then raise (Exc IdError
                         (''missing or invalid id after migration: 0x'' @ hex_int i) None)
                  else return ())
           else return ())))"

text \<open>
  \<^verbatim>\<open>
  def migrate(self, db):
      with foreign_keys_off(db), ddl_transaction(db):
          ...
  \<close>
\<close>

definition migrate :: "HeavyMigration \<Rightarrow> unit action" where
  "migrate self = foreign_keys_off (ddl_transaction (migrate_body self))"

section \<open>\<^verbatim>\<open>_sqlite_utils.LocalConnectionFactory\<close>\<close>

text \<open>
  Threads and connection objects are known by numbers. The factory keeps its path, the
  \<^verbatim>\<open>before_close\<close> hook (here: the exception it raises on a connection, if any), the
  connection \<^verbatim>\<open>_main\<close> made by the constructor, and the context variable \<^verbatim>\<open>_local\<close>, which
  holds one value per thread, or none. \<open>connections\<close> counts the calls of
  \<^verbatim>\<open>sqlite3.connect\<close>: each returns a new object, here the next number (a connection that
  cannot be opened is not modelled). \<open>closed\<close> is the set of connections on which
  \<^verbatim>\<open>close()\<close> was called. Every method is run by a thread, its second argument.
\<close>

record factory =
  path :: string
  before_close :: "nat \<Rightarrow> exc option"
  main :: nat
  local :: "nat \<Rightarrow> nat option"
  connections :: nat
  closed :: "nat set"

text \<open>
  \<^verbatim>\<open>
  @staticmethod
  def _is_private(path):
      return path in [':memory:', '']
  \<close>
\<close>

definition is_private :: "string \<Rightarrow> bool" where
  "is_private p = (p \<in> set ['':memory:'', ''''])"

text \<open>
  \<^verbatim>\<open>
  def __enter__(self):
      try:
          return self._local.get()
      except LookupError:
          db = sqlite3.connect(self.path, **self.kwargs)
          self._local.set(db)
          return db
  \<close>
\<close>

definition enter :: "factory \<Rightarrow> nat \<Rightarrow> nat \<times> factory" where
  "enter self thread =
     (case local self thread of
        Some db \<Rightarrow> (db, self)
      | None \<Rightarrow>
          (let db = connections self
           in (db, self\<lparr>local := (local self)(thread \<mapsto> db),
                        connections := Suc (connections self)\<rparr>)))"

text \<open>
  \<^verbatim>\<open>
  def __init__(self, path, before_close=do_nothing, **kwargs):
      self.path = path
      self.before_close = before_close
      self.kwargs = kwargs
      if kwargs.get('uri'):
          raise NotImplementedError("_is_private() does not work for uri=True")
      self._local = ContextVar[sqlite3.Connection]('_local')
      self._main = self.__enter__()
  \<close>
  The model is of a factory that was created, so without \<^verbatim>\<open>uri\<close>. The constructor runs
  \<^verbatim>\<open>__enter__\<close> in the creating thread.
\<close>

definition factory_init :: "string \<Rightarrow> (nat \<Rightarrow> exc option) \<Rightarrow> nat \<Rightarrow> factory" where
  "factory_init p hook thread =
     (let entered = enter \<lparr>path = p, before_close = hook, main = 0, local = (\<lambda>_. None),
                           connections = 0, closed = {}\<rparr> thread
      in (snd entered)\<lparr>main := fst entered\<rparr>)"

text \<open>
  \<^verbatim>\<open>
  def get(self):
      db = self._local.get(None)
      if not db:
          raise UsageError(
              "must be used as a context manager "
              "when using from threads other than the creating thread"
          )
      if self._is_private(self.path) and db is not self._main:
          raise UsageError(
              "cannot use a private database "
              "from threads other than the creating thread"
          )
      return db
  \<close>
  A connection object is never false, so \<^verbatim>\<open>not db\<close> holds for \<^verbatim>\<open>None\<close> only.
\<close>

definition get :: "factory \<Rightarrow> nat \<Rightarrow> exc + nat" where
  "get self thread =
     (case local self thread of
        None \<Rightarrow>
          Inl (Exc UsageError
            (''must be used as a context manager ''
              @ ''when using from threads other than the creating thread'') None)
      | Some db \<Rightarrow>
          if is_private (path self) \<and> db \<noteq> main self
          then Inl (Exc UsageError
                 (''cannot use a private database ''
                   @ ''from threads other than the creating thread'') None)
          else Inr db)"

text \<open>
  \<^verbatim>\<open>
  def _close(self):
      db = self._local.get(None)
      if not db:
          return
      try:
          self.before_close(db)
      except sqlite3.ProgrammingError as e:
          if "cannot operate on a closed database" in str(e).lower():
              pass
          else:
              raise
      db.close()

  def __exit__(self, *args):
      self._close()

  def close(self):
      db = self._local.get(None)
      if db is not self._main:
          raise UsageError(
              "cannot close() from threads other than the creating thread, "
              "use as a context manager"
          )
      self._close()
  \<close>
  The context variable keeps the connection after it is closed.
\<close>

definition close_local :: "factory \<Rightarrow> nat \<Rightarrow> exc option \<times> factory" where
  "close_local self thread =
     (case local self thread of
        None \<Rightarrow> (None, self)
      | Some db \<Rightarrow>
          (case before_close self db of
             None \<Rightarrow> (None, self\<lparr>closed := insert db (closed self)\<rparr>)
           | Some e \<Rightarrow>
               if isinstance e ProgrammingError
                  \<and> contains ''cannot operate on a closed database'' (lower (str_exc e))
               then (None, self\<lparr>closed := insert db (closed self)\<rparr>)
               else (Some e, self)))"

definition exit_scope :: "factory \<Rightarrow> nat \<Rightarrow> exc option \<times> factory" where
  "exit_scope self thread = close_local self thread"

definition close :: "factory \<Rightarrow> nat \<Rightarrow> exc option \<times> factory" where
  "close self thread =
     (if local self thread \<noteq> Some (main self)
      then (Some (Exc UsageError
              (''cannot close() from threads other than the creating thread, ''
                @ ''use as a context manager'') None), self)
      else close_local self thread)"

text \<open>
  The calls threads make on a factory, and the factory after a sequence of calls, each
  by its thread: \<^verbatim>\<open>get()\<close>, entering and leaving a \<^verbatim>\<open>with\<close> statement, \<^verbatim>\<open>close()\<close>. A call that
  raises leaves the factory as the method left it.
\<close>

datatype method_call = Get | Enter | Exit | Close

fun after_calls :: "factory \<Rightarrow> (nat \<times> method_call) list \<Rightarrow> factory" where
  "after_calls self [] = self"
| "after_calls self ((thread, Get) # calls) = after_calls self calls"
| "after_calls self ((thread, Enter) # calls) = after_calls (snd (enter self thread)) calls"
| "after_calls self ((thread, Exit) # calls) =
     after_calls (snd (exit_scope self thread)) calls"
| "after_calls self ((thread, Close) # calls) = after_calls (snd (close self thread)) calls"

section \<open>Notions used in the proofs\<close>

text \<open>
  An action keeps the transaction when it leaves the connection as deep in a
  transaction as it found it, with the same content to roll back to and the same
  settings.
\<close>

definition keeps_transaction :: "'a action \<Rightarrow> bool" where
  "keeps_transaction m =
     (\<forall>db. in_transaction (snd (m db)) = in_transaction db
          \<and> at_begin (snd (m db)) = at_begin db
          \<and> isolation_level (snd (m db)) = isolation_level db
          \<and> foreign_keys (snd (m db)) = foreign_keys db)"

text \<open>
  The connection as the block of \<^verbatim>\<open>migrate\<close> finds it, when \<^verbatim>\<open>migrate\<close> is called outside
  a transaction: foreign keys read and switched off, the transaction begun.
\<close>

definition in_migration :: "connection \<Rightarrow> connection" where
  "in_migration db =
     \<lparr>isolation_level = None, in_transaction = True, foreign_keys = False,
      content = content db, at_begin = content db,
      log = log db @ [Executed PragmaForeignKeys, Executed (PragmaForeignKeysSet False),
                      Executed Begin]\<rparr>"

text \<open>
  The connection as the block of \<^verbatim>\<open>ddl_transaction\<close> finds it: a transaction the caller
  had open was committed by the first assignment, and a new one has begun. And the
  connection as the block of \<^verbatim>\<open>foreign_keys_off\<close> finds it, when that is entered outside
  a transaction.
\<close>

definition in_ddl_transaction :: "connection \<Rightarrow> connection" where
  "in_ddl_transaction db =
     db\<lparr>isolation_level := None,
        log := log db @ (if in_transaction db then [ImplicitCommit] else [])
                 @ [Executed Begin],
        in_transaction := True, at_begin := content db\<rparr>"

definition in_foreign_keys_off :: "connection \<Rightarrow> connection" where
  "in_foreign_keys_off db =
     db\<lparr>log := log db @ [Executed PragmaForeignKeys, Executed (PragmaForeignKeysSet False)],
        foreign_keys := False\<rparr>"

text \<open>
  What the block of \<^verbatim>\<open>migrate\<close> executes before it looks at the version (the application
  id is read only when one is configured), and the connection as the loop of \<^verbatim>\<open>migrate\<close>
  finds it.
\<close>

definition reads_before :: "HeavyMigration \<Rightarrow> event list" where
  "reads_before self =
     (if id' self \<noteq> 0 then [Executed (PragmaGet ''application_id'')] else [])
       @ [Executed (PragmaGet ''user_version'')]"

definition at_loop :: "HeavyMigration \<Rightarrow> connection \<Rightarrow> connection" where
  "at_loop self db =
     (in_migration db)\<lparr>log := log (in_migration db) @ reads_before self\<rparr>"

text \<open>
  The application-id check at the head of \<^verbatim>\<open>migrate\<close> accepts a database when no id is
  configured, or the stored id is zero or the configured one.
\<close>

definition id_accepted :: "HeavyMigration \<Rightarrow> connection \<Rightarrow> bool" where
  "id_accepted self db =
     (id' self = 0 \<or> application_id (content db) = 0
      \<or> application_id (content db) = id' self)"

text \<open>
  What one step of the loop of \<^verbatim>\<open>migrate\<close> asks of the connection when it runs to its
  end: the new version is set, the migration function is called, the foreign keys are
  checked.
\<close>

definition step_events :: "int \<Rightarrow> event list" where
  "step_events from_version =
     [Executed (PragmaSet ''user_version'' (from_version + 1)),
      Called (Migration from_version),
      Executed PragmaForeignKeyCheck]"

text \<open>
  \<^verbatim>\<open>__enter__\<close> has run in a thread, at some time: in the constructor, for the creating
  thread, or at a \<^verbatim>\<open>with\<close> statement, whether or not the thread has left that statement
  since. (A thread is inside scoped acquisition only between an \<open>Enter\<close> and the next
  \<open>Exit\<close>; this is the weaker notion, the one the code can tell.)
\<close>

definition has_ever_entered :: "nat \<Rightarrow> (nat \<times> method_call) list \<Rightarrow> nat \<Rightarrow> bool" where
  "has_ever_entered creator calls thread =
     (thread = creator \<or> (thread, Enter) \<in> set calls)"

text \<open>
  What the proofs keep about a factory: the creating thread holds \<^verbatim>\<open>_main\<close>, no other
  thread does, and every connection held was counted.
\<close>

definition factory_ok :: "nat \<Rightarrow> factory \<Rightarrow> bool" where
  "factory_ok creator self =
     (local self creator = Some (main self)
      \<and> main self < connections self
      \<and> (\<forall>thread db. local self thread = Some db \<longrightarrow> db < connections self)
      \<and> (\<forall>thread. local self thread = Some (main self) \<longrightarrow> thread = creator))"

section \<open>Sample databases and migrations\<close>

text \<open>
  Concrete inputs for the instances below: an empty database file; a connection to it
  as \<^verbatim>\<open>setup_db\<close> hands it to \<^verbatim>\<open>migrate\<close> (foreign keys on, no transaction open); the same
  connection inside a transaction; and functions to configure a migration with, one
  that creates the tables, one that leaves a row without its parent, one that fails
  half way with a database error, and one that is interrupted half way.
\<close>

definition empty_database :: database where
  "empty_database =
     \<lparr>user_version = 0, application_id = 0, sqlite_master = [],
      foreign_key_violations = []\<rparr>"

definition new_connection :: "database \<Rightarrow> connection" where
  "new_connection d =
     \<lparr>isolation_level = Some [], in_transaction = False, foreign_keys = True,
      content = d, at_begin = d, log = []\<rparr>"

definition busy_connection :: "database \<Rightarrow> connection" where
  "busy_connection d =
     \<lparr>isolation_level = Some [], in_transaction = True, foreign_keys = True,
      content = d, at_begin = d, log = []\<rparr>"

definition create_tables :: db_function where
  "create_tables d = (None, d\<lparr>sqlite_master := [''feeds'', ''entries'']\<rparr>)"

definition add_orphan :: db_function where
  "add_orphan d = (None, d\<lparr>foreign_key_violations := [1]\<rparr>)"

definition fail_half_way :: db_function where
  "fail_half_way d =
     (Some (Exc OperationalError ''disk I/O error'' None), d\<lparr>sqlite_master := [''feeds'']\<rparr>)"

definition interrupted_half_way :: db_function where
  "interrupted_half_way d =
     (Some (Exc KeyboardInterrupt [] None), d\<lparr>sqlite_master := [''feeds'']\<rparr>)"

chapter \<open>Properties\<close>

section \<open>Properties of \<open>rowcount_exactly_one\<close>\<close>

text \<open>
  C7 (as stated): the not-found check raises the supplied exception for every rowcount
  other than 1. At rowcount 2 it fails its assertion instead: the exception is an
  \<^verbatim>\<open>AssertionError\<close>, not the supplied one.
\<close>

theorem rowcount_exactly_one_two_rows:
  "rowcount_exactly_one 2 (Exc (UserException ''EntryNotFoundError'') ''feed, entry'' None)
     = Inl (Exc AssertionError ''shouldn't have more than 1 row'' None)
   \<and> rowcount_exactly_one 2 (Exc (UserException ''EntryNotFoundError'') ''feed, entry'' None)
     \<noteq> Inl (Exc (UserException ''EntryNotFoundError'') ''feed, entry'' None)"
  by (simp add: rowcount_exactly_one_def)

text \<open>
  C7 (amended): the not-found check raises the supplied exception exactly when the
  rowcount is 0, returns normally exactly when it is 1, and for every other rowcount
  fails its assertion with an \<^verbatim>\<open>AssertionError\<close>.
\<close>

theorem rowcount_exactly_one_cases:
  "(rowcount = 0 \<longrightarrow> rowcount_exactly_one rowcount make_exc = Inl make_exc)
   \<and> (rowcount = 1 \<longrightarrow> rowcount_exactly_one rowcount make_exc = Inr ())
   \<and> (rowcount \<noteq> 0 \<and> rowcount \<noteq> 1 \<longrightarrow>
        rowcount_exactly_one rowcount make_exc
          = Inl (Exc AssertionError ''shouldn't have more than 1 row'' None))
   \<and> (rowcount_exactly_one rowcount make_exc = Inr () \<longrightarrow> rowcount = 1)
   \<and> (cls make_exc \<noteq> AssertionError
        \<and> rowcount_exactly_one rowcount make_exc = Inl make_exc \<longrightarrow> rowcount = 0)"
  by (auto simp: rowcount_exactly_one_def split: if_splits)

theorem rowcount_exactly_one_cases_witness:
  "rowcount_exactly_one 0 (Exc (UserException ''EntryNotFoundError'') ''feed, entry'' None)
     = Inl (Exc (UserException ''EntryNotFoundError'') ''feed, entry'' None)
   \<and> rowcount_exactly_one 1 (Exc (UserException ''EntryNotFoundError'') ''feed, entry'' None)
     = Inr ()
   \<and> rowcount_exactly_one (- 1) (Exc (UserException ''EntryNotFoundError'') ''feed, entry'' None)
     = Inl (Exc AssertionError ''shouldn't have more than 1 row'' None)"
  using rowcount_exactly_one_cases
          [of 0 "Exc (UserException ''EntryNotFoundError'') ''feed, entry'' None"]
        rowcount_exactly_one_cases
          [of 1 "Exc (UserException ''EntryNotFoundError'') ''feed, entry'' None"]
        rowcount_exactly_one_cases
          [of "- 1" "Exc (UserException ''EntryNotFoundError'') ''feed, entry'' None"]
  by simp

section \<open>Properties of \<open>chunks\<close>\<close>

lemma chunks_loop_Nil: "chunks_loop n [] = []"
  by (subst chunks_loop.simps) simp

lemma chunks_loop_step:
  assumes "xs \<noteq> []" and "0 < n"
  shows "chunks_loop n xs = take n xs # chunks_loop n (drop n xs)"
proof -
  from assms obtain first chunk where "take n xs = first # chunk"
    by (cases xs; cases n) auto
  then show ?thesis
    by (subst chunks_loop.simps) simp
qed

lemma chunks_loop_concat: "0 < n \<Longrightarrow> concat (chunks_loop n xs) = xs"
proof (induction xs rule: length_induct)
  case (1 xs)
  show ?case
  proof (cases "xs = []")
    case True
    then show ?thesis by (simp add: chunks_loop_Nil)
  next
    case False
    have "length (drop n xs) < length xs" using False 1(2) by simp
    with 1 have "concat (chunks_loop n (drop n xs)) = drop n xs" by blast
    with False 1(2) show ?thesis by (simp add: chunks_loop_step)
  qed
qed

lemma chunks_loop_nonempty: "0 < n \<Longrightarrow> c \<in> set (chunks_loop n xs) \<Longrightarrow> c \<noteq> []"
proof (induction xs rule: length_induct)
  case (1 xs)
  show ?case
  proof (cases "xs = []")
    case True
    with 1(3) show ?thesis by (simp add: chunks_loop_Nil)
  next
    case False
    have shorter: "length (drop n xs) < length xs" using False 1(2) by simp
    from 1(3) have "c = take n xs \<or> c \<in> set (chunks_loop n (drop n xs))"
      by (simp add: chunks_loop_step[OF False 1(2)])
    then show ?thesis
    proof
      assume "c = take n xs"
      with False 1(2) show ?thesis by simp
    next
      assume "c \<in> set (chunks_loop n (drop n xs))"
      with shorter 1(1,2) show ?thesis by blast
    qed
  qed
qed

lemma chunks_loop_butlast:
  "0 < n \<Longrightarrow> c \<in> set (butlast (chunks_loop n xs)) \<Longrightarrow> length c = n"
proof (induction xs rule: length_induct)
  case (1 xs)
  show ?case
  proof (cases "xs = []")
    case True
    with 1(3) show ?thesis by (simp add: chunks_loop_Nil)
  next
    case False
    note step = chunks_loop_step[OF False 1(2)]
    have shorter: "length (drop n xs) < length xs" using False 1(2) by simp
    show ?thesis
    proof (cases "chunks_loop n (drop n xs) = []")
      case True
      with 1(3) step show ?thesis by simp
    next
      case nonempty: False
      then have "drop n xs \<noteq> []" by (auto simp: chunks_loop_Nil)
      then have len: "n < length xs" by simp
      from 1(3) step nonempty
      have "c = take n xs \<or> c \<in> set (butlast (chunks_loop n (drop n xs)))"
        by simp
      then show ?thesis
      proof
        assume "c = take n xs"
        with len show ?thesis by simp
      next
        assume "c \<in> set (butlast (chunks_loop n (drop n xs)))"
        with shorter 1(1,2) show ?thesis by blast
      qed
    qed
  qed
qed

lemma chunks_loop_at_most: "c \<in> set (chunks_loop n xs) \<Longrightarrow> length c \<le> n"
proof (induction xs rule: length_induct)
  case (1 xs)
  show ?case
  proof (cases "xs = [] \<or> n = 0")
    case True
    with 1(2) show ?thesis
      by (auto simp: chunks_loop_Nil chunks_loop.simps[of 0])
  next
    case False
    then have nonempty: "xs \<noteq> []" and pos: "0 < n" by simp_all
    have shorter: "length (drop n xs) < length xs" using nonempty pos by simp
    from 1(2) have "c = take n xs \<or> c \<in> set (chunks_loop n (drop n xs))"
      by (simp add: chunks_loop_step[OF nonempty pos])
    then show ?thesis
    proof
      assume "c = take n xs"
      then show ?thesis by simp
    next
      assume "c \<in> set (chunks_loop n (drop n xs))"
      with shorter 1(1) show ?thesis by blast
    qed
  qed
qed

text \<open>
  C10 (as stated): for every \<open>n \<ge> 1\<close> and every finite input, the chunks of
  \<open>chunks n xs\<close> concatenate to \<open>xs\<close>. At \<open>n = 2\<^sup>6\<^sup>3\<close>, one above \<^verbatim>\<open>sys.maxsize\<close>, there
  are no chunks to consume: \<^verbatim>\<open>islice\<close> refuses the stop and the generator raises
  \<^verbatim>\<open>ValueError\<close>.
\<close>

theorem chunks_stop_above_maxsize:
  "(1::int) \<le> 9223372036854775808
   \<and> chunks 9223372036854775808 ''ABCDE''
     = Inl (Exc ValueError
         ''Stop argument for islice() must be None or an integer: 0 <= x <= sys.maxsize.''
         None)"
  by (simp add: chunks_def sys_maxsize_def)

text \<open>
  C10 (amended): for every \<open>n\<close> from 1 to \<^verbatim>\<open>sys.maxsize\<close> and every finite input \<open>xs\<close>,
  \<open>chunks n xs\<close> returns chunks whose concatenation, in order, is \<open>xs\<close>; every chunk but
  the last has exactly \<open>n\<close> elements, and the last at most \<open>n\<close>; and no chunk is empty, so
  the last one is not. For every \<open>n\<close> above \<^verbatim>\<open>sys.maxsize\<close> it raises \<^verbatim>\<open>ValueError\<close>.
\<close>

theorem chunks_partition:
  "(1 \<le> n \<and> n \<le> sys_maxsize \<longrightarrow>
      (\<exists>cs. chunks n xs = Inr cs
           \<and> concat cs = xs
           \<and> (\<forall>c \<in> set (butlast cs). int (length c) = n)
           \<and> (\<forall>c \<in> set cs. int (length c) \<le> n)
           \<and> (\<forall>c \<in> set cs. c \<noteq> [])
           \<and> (cs \<noteq> [] \<longrightarrow> last cs \<noteq> [])))
   \<and> (sys_maxsize < n \<longrightarrow>
        chunks n xs
          = Inl (Exc ValueError
              ''Stop argument for islice() must be None or an integer: 0 <= x <= sys.maxsize.''
              None))"
proof (intro conjI impI)
  assume range: "1 \<le> n \<and> n \<le> sys_maxsize"
  then have pos: "0 < nat n" by simp
  have "chunks n xs = Inr (chunks_loop (nat n) xs)"
    using range by (simp add: chunks_def)
  moreover have "concat (chunks_loop (nat n) xs) = xs"
    using pos by (rule chunks_loop_concat)
  moreover have "\<forall>c \<in> set (butlast (chunks_loop (nat n) xs)). int (length c) = n"
    using chunks_loop_butlast[OF pos] range by fastforce
  moreover have "\<forall>c \<in> set (chunks_loop (nat n) xs). int (length c) \<le> n"
    using chunks_loop_at_most[of _ "nat n" xs] range by fastforce
  moreover have "\<forall>c \<in> set (chunks_loop (nat n) xs). c \<noteq> []"
    using chunks_loop_nonempty[OF pos] by blast
  ultimately show "\<exists>cs. chunks n xs = Inr cs
           \<and> concat cs = xs
           \<and> (\<forall>c \<in> set (butlast cs). int (length c) = n)
           \<and> (\<forall>c \<in> set cs. int (length c) \<le> n)
           \<and> (\<forall>c \<in> set cs. c \<noteq> [])
           \<and> (cs \<noteq> [] \<longrightarrow> last cs \<noteq> [])"
    by auto
next
  assume "sys_maxsize < n"
  then show "chunks n xs
      = Inl (Exc ValueError
          ''Stop argument for islice() must be None or an integer: 0 <= x <= sys.maxsize.''
          None)"
    by (simp add: chunks_def)
qed

theorem chunks_partition_witness:
  "(1::int) \<le> 2 \<and> 2 \<le> sys_maxsize
   \<and> chunks 2 ''ABCDE'' = Inr [''AB'', ''CD'', ''E'']
   \<and> concat [''AB'', ''CD'', ''E''] = ''ABCDE''
   \<and> length ''AB'' = 2 \<and> length ''CD'' = 2 \<and> ''E'' \<noteq> []
   \<and> sys_maxsize < sys_maxsize + 1
   \<and> chunks (sys_maxsize + 1) ''ABCDE''
     = Inl (Exc ValueError
         ''Stop argument for islice() must be None or an integer: 0 <= x <= sys.maxsize.''
         None)"
  using chunks_partition [of 2 "''ABCDE''"]
        chunks_partition [of "sys_maxsize + 1" "''ABCDE''"]
  by (simp add: chunks_def chunks_loop.simps sys_maxsize_def)

section \<open>Properties of \<open>wrap_exceptions\<close>\<close>

lemma lower_examples:
  "lower ''database is locked'' = ''database is locked''"
  "lower ''Cannot operate on a closed database.'' = ''cannot operate on a closed database.''"
  "lower ''cannot operate on a closed database'' = ''cannot operate on a closed database''"
  "lower ''file is not a database'' = ''file is not a database''"
  "lower ''syntax error'' = ''syntax error''"
  by code_simp+

text \<open>
  C5 (as stated): a \<^verbatim>\<open>ProgrammingError\<close> whose text contains "cannot operate on a closed
  database" is re-raised with the original as cause, and every other
  \<^verbatim>\<open>ProgrammingError\<close> propagates unchanged. The first input below has exactly that text:
  it is re-raised, but with no cause (\<^verbatim>\<open>from None\<close>). The second has the text as
  \<^verbatim>\<open>sqlite3\<close> writes it, with a capital C: it does not contain the phrase, yet it is
  re-raised too, because the test is made on the lower-cased text.
\<close>

theorem wrap_exceptions_closed_database:
  "(wrap_exceptions StorageError ''unexpected error''
      (Inl (Exc ProgrammingError ''cannot operate on a closed database'' None)) :: exc + unit)
     = Inl (Exc (UserException ''StorageError'') ''operation on closed database'' None)
   \<and> \<not> contains ''cannot operate on a closed database''
         ''Cannot operate on a closed database.''
   \<and> (wrap_exceptions StorageError ''unexpected error''
        (Inl (Exc ProgrammingError ''Cannot operate on a closed database.'' None)) :: exc + unit)
     = Inl (Exc (UserException ''StorageError'') ''operation on closed database'' None)"
  by (simp add: wrap_exceptions_def isinstance_def str_exc_def lower_examples
      raise_from_def StorageError_def)

text \<open>
  C5 (amended): for every exception \<open>e\<close> raised inside the block,
  \<^item> an \<^verbatim>\<open>OperationalError\<close> is re-raised as \<open>exc_type message\<close> with \<open>e\<close> as cause;
  \<^item> a \<^verbatim>\<open>ProgrammingError\<close> whose lower-cased text contains "cannot operate on a closed
    database" is re-raised as \<open>exc_type ''operation on closed database''\<close> with no cause;
  \<^item> an instance of exactly \<^verbatim>\<open>DatabaseError\<close> whose lower-cased text contains "file is
    not a database" is re-raised as \<open>exc_type message\<close> with \<open>e\<close> as cause;
  \<^item> every other exception, so every other \<^verbatim>\<open>ProgrammingError\<close> and \<^verbatim>\<open>DatabaseError\<close>,
    propagates unchanged, and a block that returns, returns.
\<close>

theorem wrap_exceptions_cases:
  "(isinstance e OperationalError \<longrightarrow>
      (\<exists>r. wrap_exceptions exc_type message (Inl e) = Inl r
         \<and> cls r = cls (exc_type message) \<and> msg r = msg (exc_type message)
         \<and> cause r = Some e))
   \<and> (isinstance e ProgrammingError
        \<and> contains ''cannot operate on a closed database'' (lower (str_exc e)) \<longrightarrow>
      (\<exists>r. wrap_exceptions exc_type message (Inl e) = Inl r
         \<and> cls r = cls (exc_type ''operation on closed database'')
         \<and> msg r = msg (exc_type ''operation on closed database'')
         \<and> cause r = None))
   \<and> (cls e = DatabaseError
        \<and> contains ''file is not a database'' (lower (str_exc e)) \<longrightarrow>
      (\<exists>r. wrap_exceptions exc_type message (Inl e) = Inl r
         \<and> cls r = cls (exc_type message) \<and> msg r = msg (exc_type message)
         \<and> cause r = Some e))
   \<and> (\<not> isinstance e OperationalError
        \<and> \<not> (isinstance e ProgrammingError
              \<and> contains ''cannot operate on a closed database'' (lower (str_exc e)))
        \<and> \<not> (cls e = DatabaseError
              \<and> contains ''file is not a database'' (lower (str_exc e))) \<longrightarrow>
      wrap_exceptions exc_type message (Inl e) = Inl e)
   \<and> wrap_exceptions exc_type message (Inr x) = Inr x"
  by (cases "cls e") (auto simp: wrap_exceptions_def isinstance_def raise_from_def)

theorem wrap_exceptions_cases_witness:
  "(wrap_exceptions StorageError ''unexpected error''
      (Inl (Exc OperationalError ''database is locked'' None)) :: exc + unit)
     = Inl (Exc (UserException ''StorageError'') ''unexpected error''
              (Some (Exc OperationalError ''database is locked'' None)))
   \<and> (wrap_exceptions StorageError ''unexpected error''
        (Inl (Exc ProgrammingError ''Cannot operate on a closed database.'' None)) :: exc + unit)
     = Inl (Exc (UserException ''StorageError'') ''operation on closed database'' None)
   \<and> (wrap_exceptions StorageError ''unexpected error''
        (Inl (Exc DatabaseError ''file is not a database'' None)) :: exc + unit)
     = Inl (Exc (UserException ''StorageError'') ''unexpected error''
              (Some (Exc DatabaseError ''file is not a database'' None)))
   \<and> (wrap_exceptions StorageError ''unexpected error''
        (Inl (Exc Sqlite3IntegrityError ''file is not a database'' None)) :: exc + unit)
     = Inl (Exc Sqlite3IntegrityError ''file is not a database'' None)
   \<and> (wrap_exceptions StorageError ''unexpected error''
        (Inl (Exc ProgrammingError ''syntax error'' None)) :: exc + unit)
     = Inl (Exc ProgrammingError ''syntax error'' None)"
  using wrap_exceptions_cases
          [of "Exc OperationalError ''database is locked'' None" StorageError
              "''unexpected error''" "()"]
        wrap_exceptions_cases
          [of "Exc ProgrammingError ''Cannot operate on a closed database.'' None"
              StorageError "''unexpected error''" "()"]
        wrap_exceptions_cases
          [of "Exc DatabaseError ''file is not a database'' None" StorageError
              "''unexpected error''" "()"]
        wrap_exceptions_cases
          [of "Exc Sqlite3IntegrityError ''file is not a database'' None" StorageError
              "''unexpected error''" "()"]
        wrap_exceptions_cases
          [of "Exc ProgrammingError ''syntax error'' None" StorageError
              "''unexpected error''" "()"]
  by (simp add: wrap_exceptions_def isinstance_def str_exc_def lower_examples
      raise_from_def StorageError_def)

section \<open>Properties of \<open>join_paginated_iter\<close>\<close>

lemma cursor_from_Suc:
  "cursor_from g n c (Suc k) = Some (snd (last (g n (cursor_from g n c k))))"
  by (induction k arbitrary: c) simp_all

lemma join_paginated_loop_stops:
  assumes "n \<noteq> 0"
    and "\<forall>j<k. \<not> short_at g n (cursor_from g n c j)"
    and "short_at g n (cursor_from g n c k)"
    and "k < fuel"
  shows "join_paginated_loop fuel g n c =
           Some (concat (map (\<lambda>j. map fst (g n (cursor_from g n c j))) [0..<Suc k]),
                 map (\<lambda>j. (n, cursor_from g n c j)) [0..<Suc k])"
  using assms
proof (induction k arbitrary: c fuel)
  case 0
  then obtain f where "fuel = Suc f" by (cases fuel) auto
  with 0 show ?case by (auto simp: short_at_def Let_def)
next
  case (Suc k)
  then obtain f where f: "fuel = Suc f" by (cases fuel) auto
  let ?c' = "Some (snd (last (g n c)))"
  from Suc.prems(2) have notshort: "\<not> short_at g n c" by fastforce
  have a: "\<forall>j<k. \<not> short_at g n (cursor_from g n ?c' j)"
    using Suc.prems(2) by fastforce
  have b: "short_at g n (cursor_from g n ?c' k)" using Suc.prems(3) by simp
  have c: "k < f" using Suc.prems(4) f by simp
  note ih = Suc.IH[OF Suc.prems(1) a b c]
  have shift: "[0..<Suc (Suc k)] = 0 # map Suc [0..<Suc k]"
    by (metis map_Suc_upt upt_conv_Cons zero_less_Suc)
  show ?case
    unfolding f shift using notshort Suc.prems(1) ih
    by (simp add: short_at_def Let_def comp_def del: upt_Suc)
qed

lemma join_paginated_loop_Some:
  assumes "n \<noteq> 0" and "join_paginated_loop fuel g n c = Some r"
  shows "\<exists>k<fuel. short_at g n (cursor_from g n c k)
           \<and> (\<forall>j<k. \<not> short_at g n (cursor_from g n c j))"
  using assms
proof (induction fuel arbitrary: c r)
  case 0
  then show ?case by simp
next
  case (Suc fuel)
  show ?case
  proof (cases "short_at g n c")
    case True
    then have "short_at g n (cursor_from g n c 0)
        \<and> (\<forall>j<0. \<not> short_at g n (cursor_from g n c j))"
      by simp
    then show ?thesis by blast
  next
    case False
    let ?c' = "Some (snd (last (g n c)))"
    from False Suc.prems obtain r' where "join_paginated_loop fuel g n ?c' = Some r'"
      by (auto simp: short_at_def Let_def split: option.splits)
    from Suc.IH[OF Suc.prems(1) this] obtain k where k: "k < fuel"
      "short_at g n (cursor_from g n ?c' k)"
      "\<forall>j<k. \<not> short_at g n (cursor_from g n ?c' j)"
      by blast
    have "\<forall>j<Suc k. \<not> short_at g n (cursor_from g n c j)"
    proof (intro allI impI)
      fix j assume "j < Suc k"
      then show "\<not> short_at g n (cursor_from g n c j)"
        using False k(3) by (cases j) auto
    qed
    with k(1,2) have "Suc k < Suc fuel \<and> short_at g n (cursor_from g n c (Suc k))
        \<and> (\<forall>j<Suc k. \<not> short_at g n (cursor_from g n c j))"
      by simp
    then show ?thesis by blast
  qed
qed

lemma short_page_at:
  "short_page g n k = short_at g n (cursor_from g n None k)"
  by (simp add: short_page_def short_at_def page_def)

text \<open>
  C8: for every page function \<open>get_things\<close> and every \<open>chunk_size\<close>:
  \<^item> when \<open>chunk_size = 0\<close>, the generator makes the single call \<open>get_things 0 None\<close> and
    yields exactly its items, in order;
  \<^item> when \<open>chunk_size > 0\<close>, the first call gets the cursor \<^verbatim>\<open>None\<close> and every later call
    the cursor paired with the last item of the page before; if page \<open>k\<close> is the first
    short page (empty, or fewer than \<open>chunk_size\<close> items), the generator finishes
    after the calls for the pages \<open>0 .. k\<close>, all with \<open>chunk_size\<close>, having yielded
    the items of these pages in order;
  \<^item> it finishes only so: a run that finishes has a first short page among the pages
    it called for, and when no page is short no amount of fuel lets it finish.
\<close>

theorem join_paginated_iter_pages:
  "join_paginated_iter (Suc fuel) get_things 0
     = Some (map fst (get_things 0 None), [(0, None)])
   \<and> cursor_from get_things chunk_size None 0 = None
   \<and> cursor_from get_things chunk_size None (Suc j)
       = Some (snd (last (page get_things chunk_size j)))
   \<and> (0 < chunk_size \<and> short_page get_things chunk_size k
        \<and> (\<forall>j<k. \<not> short_page get_things chunk_size j) \<and> k < fuel \<longrightarrow>
      join_paginated_iter fuel get_things chunk_size
        = Some (concat (map (\<lambda>j. map fst (page get_things chunk_size j)) [0..<Suc k]),
                map (\<lambda>j. (chunk_size, cursor_from get_things chunk_size None j))
                  [0..<Suc k]))
   \<and> (0 < chunk_size \<and> join_paginated_iter fuel get_things chunk_size = Some r \<longrightarrow>
      (\<exists>k<fuel. short_page get_things chunk_size k
         \<and> (\<forall>j<k. \<not> short_page get_things chunk_size j)))
   \<and> (0 < chunk_size \<and> (\<forall>k. \<not> short_page get_things chunk_size k) \<longrightarrow>
      join_paginated_iter fuel get_things chunk_size = None)"
proof (intro conjI impI)
  show "join_paginated_iter (Suc fuel) get_things 0
          = Some (map fst (get_things 0 None), [(0, None)])"
    by (simp add: join_paginated_iter_def)
  show "cursor_from get_things chunk_size None 0 = None" by simp
  show "cursor_from get_things chunk_size None (Suc j)
          = Some (snd (last (page get_things chunk_size j)))"
    unfolding page_def by (rule cursor_from_Suc)
next
  assume a: "0 < chunk_size \<and> short_page get_things chunk_size k
        \<and> (\<forall>j<k. \<not> short_page get_things chunk_size j) \<and> k < fuel"
  then have "chunk_size \<noteq> 0" by simp
  from join_paginated_loop_stops[OF this, of k get_things None fuel] a
  show "join_paginated_iter fuel get_things chunk_size
        = Some (concat (map (\<lambda>j. map fst (page get_things chunk_size j)) [0..<Suc k]),
                map (\<lambda>j. (chunk_size, cursor_from get_things chunk_size None j))
                  [0..<Suc k])"
    unfolding join_paginated_iter_def short_page_at page_def by blast
next
  assume a: "0 < chunk_size \<and> join_paginated_iter fuel get_things chunk_size = Some r"
  then have "chunk_size \<noteq> 0" by simp
  from join_paginated_loop_Some[OF this, of fuel get_things None r] a
  show "\<exists>k<fuel. short_page get_things chunk_size k
         \<and> (\<forall>j<k. \<not> short_page get_things chunk_size j)"
    unfolding join_paginated_iter_def short_page_at by blast
next
  assume a: "0 < chunk_size \<and> (\<forall>k. \<not> short_page get_things chunk_size k)"
  then have nz: "chunk_size \<noteq> 0" by simp
  show "join_paginated_iter fuel get_things chunk_size = None"
  proof (cases "join_paginated_iter fuel get_things chunk_size")
    case None
    then show ?thesis .
  next
    case (Some r')
    from join_paginated_loop_Some[OF nz, of fuel get_things None r'] Some a
    show ?thesis unfolding join_paginated_iter_def short_page_at by blast
  qed
qed

theorem join_paginated_iter_pages_witness:
  "join_paginated_iter 5
      (\<lambda>n c. case c of None \<Rightarrow> [(''a'', 1::nat), (''b'', 2)] | Some _ \<Rightarrow> [(''c'', 3)]) 2
     = Some ([''a'', ''b'', ''c''], [(2, None), (2, Some 2)])
   \<and> join_paginated_iter 5 (\<lambda>n c. [(''a'', 1::nat)]) 1 = None
   \<and> join_paginated_iter 1 (\<lambda>n c. [(''a'', 1::nat), (''b'', 2)]) 0
     = Some ([''a'', ''b''], [(0, None)])"
proof -
  let ?g = "\<lambda>(n::int) c. case c of None \<Rightarrow> [(''a'', 1::nat), (''b'', 2)]
                                | Some (_::nat) \<Rightarrow> [(''c'', 3)]"
  let ?h = "\<lambda>(n::int) (c::nat option). [(''a'', 1::nat)]"
  let ?z = "\<lambda>(n::int) (c::nat option). [(''a'', 1::nat), (''b'', 2)]"
  have "0 < (2::int) \<and> short_page ?g 2 1 \<and> (\<forall>j<1. \<not> short_page ?g 2 j) \<and> (1::nat) < 5"
    by (simp add: short_page_def page_def)
  with join_paginated_iter_pages
         [where get_things = ?g and chunk_size = 2 and k = 1 and fuel = 5]
  have "join_paginated_iter 5 ?g 2
        = Some (concat (map (\<lambda>j. map fst (page ?g 2 j)) [0..<Suc 1]),
                map (\<lambda>j. (2, cursor_from ?g 2 None j)) [0..<Suc 1])"
    by blast
  then have a: "join_paginated_iter 5 ?g 2
        = Some ([''a'', ''b'', ''c''], [(2, None), (2, Some 2)])"
    by (simp add: page_def)
  have "0 < (1::int) \<and> (\<forall>k. \<not> short_page ?h 1 k)"
    by (simp add: short_page_def page_def)
  with join_paginated_iter_pages [where get_things = ?h and chunk_size = 1 and fuel = 5]
  have b: "join_paginated_iter 5 ?h 1 = None"
    by blast
  from join_paginated_iter_pages [where get_things = ?z and fuel = 0]
  have c: "join_paginated_iter 1 ?z 0 = Some ([''a'', ''b''], [(0, None)])"
    by simp
  from a b c show ?thesis by simp
qed

section \<open>Properties of the transaction wrappers\<close>

lemma execute_set_foreign_keys:
  "execute (PragmaForeignKeysSet on) db =
     (Inr [], if in_transaction db
              then db\<lparr>log := log db @ [Executed (PragmaForeignKeysSet on)]\<rparr>
              else db\<lparr>log := log db @ [Executed (PragmaForeignKeysSet on)], foreign_keys := on\<rparr>)"
  by (simp add: execute_def)

lemma foreign_keys_off_inside:
  "in_transaction db \<Longrightarrow>
   foreign_keys_off body db =
     (Inl (Exc AssertionError ''foreign_keys_off must be used outside transactions'' None), db)"
  by (simp add: foreign_keys_off_def)

lemma foreign_keys_off_outside:
  assumes "\<not> in_transaction db"
  shows "foreign_keys_off body db =
     (fst (body (db\<lparr>log := log db @ [Executed PragmaForeignKeys,
                                      Executed (PragmaForeignKeysSet False)],
                     foreign_keys := False\<rparr>)),
      snd (execute (PragmaForeignKeysSet (foreign_keys db))
            (snd (body (db\<lparr>log := log db @ [Executed PragmaForeignKeys,
                                      Executed (PragmaForeignKeysSet False)],
                     foreign_keys := False\<rparr>)))))"
  using assms
  by (simp add: foreign_keys_off_def and_then_def execute_def fetchone_value_def return_def
      Let_def split: prod.splits sum.splits)


lemma set_isolation_level_outside:
  "\<not> in_transaction db \<Longrightarrow>
   set_isolation_level level db = (Inr (), db\<lparr>isolation_level := level\<rparr>)"
  by (simp add: set_isolation_level_def)

lemma set_isolation_level_level:
  "isolation_level (snd (set_isolation_level level db)) = level"
  by (simp add: set_isolation_level_def)

lemma set_isolation_level_returns: "fst (set_isolation_level level db) = Inr ()"
  by (simp add: set_isolation_level_def)

lemma ddl_transaction_isolation_level:
  "isolation_level (snd (ddl_transaction body db)) = isolation_level db"
  by (simp add: ddl_transaction_def Let_def set_isolation_level_returns
      set_isolation_level_level)

lemma ddl_transaction_entered:
  "and_then (set_isolation_level None) (\<lambda>_. and_then (execute Begin) f) db
     = f [] (in_ddl_transaction db)"
  by (simp add: and_then_def set_isolation_level_def execute_def in_ddl_transaction_def)

lemma ddl_transaction_unfolded:
  "ddl_transaction body db =
     (let tried = and_then body (\<lambda>x. and_then (execute Commit) (\<lambda>_. return x))
                    (in_ddl_transaction db);
          handled =
            (case tried of
               (Inr x, db') \<Rightarrow> (Inr x, db')
             | (Inl e, db') \<Rightarrow>
                 if isinstance e Exception
                 then and_then (execute Rollback) (\<lambda>_. raise e) db'
                 else (Inl e, db'))
      in (fst handled, snd (set_isolation_level (isolation_level db) (snd handled))))"
  by (simp add: ddl_transaction_def ddl_transaction_entered set_isolation_level_returns
      Let_def)

lemma in_ddl_transaction_outside:
  "\<not> in_transaction db \<Longrightarrow>
   in_ddl_transaction db
     = db\<lparr>isolation_level := None, log := log db @ [Executed Begin],
          in_transaction := True, at_begin := content db\<rparr>"
  by (simp add: in_ddl_transaction_def)

lemma ddl_transaction_commit:
  assumes "\<not> in_transaction db"
    and "body (db\<lparr>isolation_level := None, log := log db @ [Executed Begin],
                    in_transaction := True, at_begin := content db\<rparr>) = (Inr x, left)"
    and "in_transaction left"
  shows "ddl_transaction body db =
           (Inr x, left\<lparr>log := log left @ [Executed Commit], in_transaction := False,
                         isolation_level := isolation_level db\<rparr>)"
  using assms
  by (simp add: ddl_transaction_unfolded in_ddl_transaction_outside and_then_def
      execute_def return_def set_isolation_level_def Let_def)

lemma ddl_transaction_rollback:
  assumes "\<not> in_transaction db"
    and "body (db\<lparr>isolation_level := None, log := log db @ [Executed Begin],
                    in_transaction := True, at_begin := content db\<rparr>) = (Inl e, left)"
    and "isinstance e Exception"
    and "in_transaction left"
  shows "ddl_transaction body db =
           (Inl e, left\<lparr>log := log left @ [Executed Rollback], in_transaction := False,
                         content := at_begin left,
                         isolation_level := isolation_level db\<rparr>)"
  using assms
  by (simp add: ddl_transaction_unfolded in_ddl_transaction_outside and_then_def
      execute_def return_def raise_def set_isolation_level_def Let_def)

lemma ddl_transaction_passes:
  assumes "\<not> in_transaction db"
    and "body (db\<lparr>isolation_level := None, log := log db @ [Executed Begin],
                    in_transaction := True, at_begin := content db\<rparr>) = (Inl e, left)"
    and "\<not> isinstance e Exception"
  shows "ddl_transaction body db
           = (Inl e, snd (set_isolation_level (isolation_level db) left))"
  using assms
  by (simp add: ddl_transaction_unfolded in_ddl_transaction_outside and_then_def Let_def)

lemma keeps_return: "keeps_transaction (return x)"
  by (simp add: keeps_transaction_def return_def)

lemma keeps_raise: "keeps_transaction (raise e)"
  by (simp add: keeps_transaction_def raise_def)

lemma keeps_if:
  "keeps_transaction a \<Longrightarrow> keeps_transaction b \<Longrightarrow> keeps_transaction (if c then a else b)"
  by simp

lemma keeps_and_then:
  assumes "keeps_transaction m" and "\<And>x. keeps_transaction (f x)"
  shows "keeps_transaction (and_then m f)"
  unfolding keeps_transaction_def
proof
  fix db
  show "in_transaction (snd (and_then m f db)) = in_transaction db
      \<and> at_begin (snd (and_then m f db)) = at_begin db
      \<and> isolation_level (snd (and_then m f db)) = isolation_level db
      \<and> foreign_keys (snd (and_then m f db)) = foreign_keys db"
  proof (cases "m db")
    case (Pair r db')
    from assms(1) Pair have m: "in_transaction db' = in_transaction db"
      "at_begin db' = at_begin db" "isolation_level db' = isolation_level db"
      "foreign_keys db' = foreign_keys db"
      unfolding keeps_transaction_def by (metis snd_conv)+
    show ?thesis
    proof (cases r)
      case (Inl e)
      with Pair m show ?thesis by (simp add: and_then_def)
    next
      case (Inr x)
      from assms(2)[of x] have "in_transaction (snd (f x db')) = in_transaction db'
        \<and> at_begin (snd (f x db')) = at_begin db'
        \<and> isolation_level (snd (f x db')) = isolation_level db'
        \<and> foreign_keys (snd (f x db')) = foreign_keys db'"
        unfolding keeps_transaction_def by blast
      with Inr Pair m show ?thesis by (simp add: and_then_def)
    qed
  qed
qed

lemma keeps_execute:
  assumes "stmt \<notin> {Begin, Commit, Rollback}" and "\<forall>on. stmt \<noteq> PragmaForeignKeysSet on"
  shows "keeps_transaction (execute stmt)"
  using assms by (cases stmt) (auto simp: keeps_transaction_def execute_def Let_def)

lemma keeps_fetchone_value: "keeps_transaction (fetchone_value rows)"
  by (auto simp: fetchone_value_def keeps_return keeps_raise split: list.splits)

lemma keeps_get_int_pragma: "keeps_transaction (get_int_pragma pragma)"
  unfolding get_int_pragma_def
  by (intro keeps_and_then keeps_execute keeps_fetchone_value) auto

lemma keeps_set_int_pragma: "keeps_transaction (set_int_pragma pragma v lb)"
  unfolding set_int_pragma_def
  by (intro keeps_if keeps_and_then keeps_execute keeps_return keeps_raise) auto

lemma keeps_table_count: "keeps_transaction table_count"
  unfolding table_count_def
  by (intro keeps_and_then keeps_execute keeps_fetchone_value) auto

lemma keeps_foreign_key_check: "keeps_transaction foreign_key_check"
  unfolding foreign_key_check_def
  by (intro keeps_if keeps_and_then keeps_execute keeps_return keeps_raise) auto

lemma keeps_call: "keeps_transaction (call name f)"
  by (simp add: keeps_transaction_def call_def Let_def)

lemma keeps_checked_foreign_keys:
  "keeps_transaction
     (\<lambda>db. case foreign_key_check db of
              (Inl e, db') \<Rightarrow> if isinstance e IntegrityError then (Inl (w e), db')
                               else (Inl e, db')
            | (Inr u, db') \<Rightarrow> (Inr u, db'))"
  unfolding keeps_transaction_def
proof
  fix db
  obtain r db' where fk: "foreign_key_check db = (r, db')"
    by (cases "foreign_key_check db")
  with keeps_foreign_key_check
  have "in_transaction db' = in_transaction db \<and> at_begin db' = at_begin db
      \<and> isolation_level db' = isolation_level db \<and> foreign_keys db' = foreign_keys db"
    unfolding keeps_transaction_def by (metis snd_conv)
  with fk
  show "in_transaction (snd (case foreign_key_check db of
              (Inl e, db') \<Rightarrow> if isinstance e IntegrityError then (Inl (w e), db')
                               else (Inl e, db')
            | (Inr u, db') \<Rightarrow> (Inr u, db'))) = in_transaction db
      \<and> at_begin (snd (case foreign_key_check db of
              (Inl e, db') \<Rightarrow> if isinstance e IntegrityError then (Inl (w e), db')
                               else (Inl e, db')
            | (Inr u, db') \<Rightarrow> (Inr u, db'))) = at_begin db
      \<and> isolation_level (snd (case foreign_key_check db of
              (Inl e, db') \<Rightarrow> if isinstance e IntegrityError then (Inl (w e), db')
                               else (Inl e, db')
            | (Inr u, db') \<Rightarrow> (Inr u, db'))) = isolation_level db
      \<and> foreign_keys (snd (case foreign_key_check db of
              (Inl e, db') \<Rightarrow> if isinstance e IntegrityError then (Inl (w e), db')
                               else (Inl e, db')
            | (Inr u, db') \<Rightarrow> (Inr u, db'))) = foreign_keys db"
    by (cases r) simp_all
qed

lemma keeps_migrate_loop: "keeps_transaction (migrate_loop self v vs)"
proof (induction vs)
  case Nil
  show ?case by (simp add: keeps_return)
next
  case (Cons from_version rest)
  show ?case
  proof (cases "migrations self from_version")
    case None
    then show ?thesis by (simp add: keeps_raise)
  next
    case (Some migration)
    then show ?thesis
      by (simp add: Let_def set_version_def)
         (intro keeps_and_then keeps_set_int_pragma keeps_call
            keeps_checked_foreign_keys Cons.IH)
  qed
qed

lemma keeps_migrate_body: "keeps_transaction (migrate_body self)"
  unfolding migrate_body_def get_id_def get_version_def set_version_def set_id_def
  by (intro keeps_if keeps_and_then keeps_get_int_pragma keeps_set_int_pragma
        keeps_table_count keeps_call keeps_migrate_loop keeps_return keeps_raise)

lemma in_migration_entered:
  "db\<lparr>log := log db @ [Executed PragmaForeignKeys, Executed (PragmaForeignKeysSet False)],
       foreign_keys := False\<rparr>
     \<lparr>isolation_level := None,
      log := log (db\<lparr>log := log db @ [Executed PragmaForeignKeys,
                                        Executed (PragmaForeignKeysSet False)],
                      foreign_keys := False\<rparr>) @ [Executed Begin],
      in_transaction := True,
      at_begin := content (db\<lparr>log := log db @ [Executed PragmaForeignKeys,
                                        Executed (PragmaForeignKeysSet False)],
                      foreign_keys := False\<rparr>)\<rparr>
   = in_migration db"
  by (simp add: in_migration_def)

lemma migrate_body_left:
  assumes "migrate_body self (in_migration db) = (r, left)"
  shows "in_transaction left" and "at_begin left = content db"
    and "isolation_level left = None" and "foreign_keys left = False"
proof -
  from keeps_migrate_body[of self] assms
  have "in_transaction left = in_transaction (in_migration db)
      \<and> at_begin left = at_begin (in_migration db)
      \<and> isolation_level left = isolation_level (in_migration db)
      \<and> foreign_keys left = foreign_keys (in_migration db)"
    unfolding keeps_transaction_def by (metis snd_conv)
  then show "in_transaction left" and "at_begin left = content db"
    and "isolation_level left = None" and "foreign_keys left = False"
    by (simp_all add: in_migration_def)
qed

lemma migrate_returns:
  assumes "\<not> in_transaction db"
    and "migrate_body self (in_migration db) = (Inr x, left)"
  shows "fst (migrate self db) = Inr x"
    and "content (snd (migrate self db)) = content left"
    and "log (snd (migrate self db)) =
           log left @ [Executed Commit, Executed (PragmaForeignKeysSet (foreign_keys db))]"
    and "in_transaction (snd (migrate self db)) = False"
    and "isolation_level (snd (migrate self db)) = isolation_level db"
    and "foreign_keys (snd (migrate self db)) = foreign_keys db"
proof -
  let ?e1 = "db\<lparr>log := log db @ [Executed PragmaForeignKeys,
                                   Executed (PragmaForeignKeysSet False)],
                 foreign_keys := False\<rparr>"
  have out: "\<not> in_transaction ?e1" using assms(1) by simp
  have body: "migrate_body self
      (?e1\<lparr>isolation_level := None, log := log ?e1 @ [Executed Begin],
            in_transaction := True, at_begin := content ?e1\<rparr>) = (Inr x, left)"
    using assms(2) by (simp only: in_migration_entered)
  note ddl = ddl_transaction_commit[where body = "migrate_body self" and db = ?e1,
      OF out body migrate_body_left(1)[OF assms(2)]]
  have m: "migrate self db =
      (Inr x, snd (execute (PragmaForeignKeysSet (foreign_keys db))
         (left\<lparr>log := log left @ [Executed Commit], in_transaction := False,
               isolation_level := isolation_level ?e1\<rparr>)))"
    unfolding migrate_def foreign_keys_off_outside[OF assms(1)] ddl by simp
  show "fst (migrate self db) = Inr x"
    and "content (snd (migrate self db)) = content left"
    and "log (snd (migrate self db)) =
           log left @ [Executed Commit, Executed (PragmaForeignKeysSet (foreign_keys db))]"
    and "in_transaction (snd (migrate self db)) = False"
    and "isolation_level (snd (migrate self db)) = isolation_level db"
    and "foreign_keys (snd (migrate self db)) = foreign_keys db"
    unfolding m by (simp_all add: execute_set_foreign_keys)
qed

lemma migrate_raises:
  assumes "\<not> in_transaction db"
    and "migrate_body self (in_migration db) = (Inl e, left)"
    and "isinstance e Exception"
  shows "fst (migrate self db) = Inl e"
    and "content (snd (migrate self db)) = content db"
    and "log (snd (migrate self db)) =
           log left @ [Executed Rollback, Executed (PragmaForeignKeysSet (foreign_keys db))]"
    and "in_transaction (snd (migrate self db)) = False"
    and "isolation_level (snd (migrate self db)) = isolation_level db"
    and "foreign_keys (snd (migrate self db)) = foreign_keys db"
proof -
  let ?e1 = "db\<lparr>log := log db @ [Executed PragmaForeignKeys,
                                   Executed (PragmaForeignKeysSet False)],
                 foreign_keys := False\<rparr>"
  have out: "\<not> in_transaction ?e1" using assms(1) by simp
  have body: "migrate_body self
      (?e1\<lparr>isolation_level := None, log := log ?e1 @ [Executed Begin],
            in_transaction := True, at_begin := content ?e1\<rparr>) = (Inl e, left)"
    using assms(2) by (simp only: in_migration_entered)
  note ddl = ddl_transaction_rollback[where body = "migrate_body self" and db = ?e1,
      OF out body assms(3) migrate_body_left(1)[OF assms(2)]]
  have m: "migrate self db =
      (Inl e, snd (execute (PragmaForeignKeysSet (foreign_keys db))
         (left\<lparr>log := log left @ [Executed Rollback], in_transaction := False,
               content := at_begin left, isolation_level := isolation_level ?e1\<rparr>)))"
    unfolding migrate_def foreign_keys_off_outside[OF assms(1)] ddl by simp
  show "fst (migrate self db) = Inl e"
    and "content (snd (migrate self db)) = content db"
    and "log (snd (migrate self db)) =
           log left @ [Executed Rollback, Executed (PragmaForeignKeysSet (foreign_keys db))]"
    and "in_transaction (snd (migrate self db)) = False"
    and "isolation_level (snd (migrate self db)) = isolation_level db"
    and "foreign_keys (snd (migrate self db)) = foreign_keys db"
    unfolding m by (simp_all add: execute_set_foreign_keys migrate_body_left(2)[OF assms(2)])
qed

lemma migrate_passes:
  assumes "\<not> in_transaction db"
    and "migrate_body self (in_migration db) = (Inl e, left)"
    and "\<not> isinstance e Exception"
  shows "fst (migrate self db) = Inl e"
    and "content (snd (migrate self db)) = content left"
    and "isolation_level (snd (migrate self db)) = isolation_level db"
proof -
  let ?e1 = "db\<lparr>log := log db @ [Executed PragmaForeignKeys,
                                   Executed (PragmaForeignKeysSet False)],
                 foreign_keys := False\<rparr>"
  have out: "\<not> in_transaction ?e1" using assms(1) by simp
  have body: "migrate_body self
      (?e1\<lparr>isolation_level := None, log := log ?e1 @ [Executed Begin],
            in_transaction := True, at_begin := content ?e1\<rparr>) = (Inl e, left)"
    using assms(2) by (simp only: in_migration_entered)
  note ddl = ddl_transaction_passes[where body = "migrate_body self" and db = ?e1,
      OF out body assms(3)]
  have m: "migrate self db =
      (Inl e, snd (execute (PragmaForeignKeysSet (foreign_keys db))
         (snd (set_isolation_level (isolation_level ?e1) left))))"
    unfolding migrate_def foreign_keys_off_outside[OF assms(1)] ddl by simp
  show "fst (migrate self db) = Inl e"
    and "content (snd (migrate self db)) = content left"
    and "isolation_level (snd (migrate self db)) = isolation_level db"
    unfolding m
    by (simp_all add: execute_set_foreign_keys set_isolation_level_def)
qed

lemma migrate_atomic:
  assumes "fst (migrate self db) = Inl e" and "isinstance e Exception"
  shows "content (snd (migrate self db)) = content db
       \<and> in_transaction (snd (migrate self db)) = in_transaction db
       \<and> isolation_level (snd (migrate self db)) = isolation_level db
       \<and> foreign_keys (snd (migrate self db)) = foreign_keys db"
proof (cases "in_transaction db")
  case True
  then show ?thesis by (simp add: migrate_def foreign_keys_off_inside)
next
  case False
  obtain r left where body: "migrate_body self (in_migration db) = (r, left)"
    by (cases "migrate_body self (in_migration db)")
  show ?thesis
  proof (cases r)
    case (Inr x)
    with migrate_returns(1)[OF False] body assms(1) show ?thesis by simp
  next
    case (Inl e')
    with body have b: "migrate_body self (in_migration db) = (Inl e', left)" by simp
    show ?thesis
    proof (cases "isinstance e' Exception")
      case True
      from migrate_raises[OF False b True] False show ?thesis by simp
    next
      case no: False
      from migrate_passes(1)[OF False b no] assms no show ?thesis by simp
    qed
  qed
qed

subsection \<open>\<open>foreign_keys_off\<close>\<close>

text \<open>
  C9 (as stated): the value read is restored on every exit path. The statement that
  restores it is executed on every exit path, but the engine ignores it inside a
  transaction. In both inputs below foreign keys are on at entry. In the first the
  block begins a transaction and returns; in the second the block is a
  \<open>ddl_transaction\<close> that is interrupted, as in an interrupted \<open>migrate\<close>, and leaves its
  transaction open. Both times \<^verbatim>\<open>PRAGMA foreign_keys = ON\<close> is the last statement executed,
  and foreign keys are off afterwards.
\<close>

theorem foreign_keys_off_left_off:
  "foreign_keys (new_connection empty_database)
   \<and> foreign_keys_off (and_then (execute Begin) (\<lambda>_. return ()))
        (new_connection empty_database)
     = (Inr (),
        \<lparr>isolation_level = Some [], in_transaction = True, foreign_keys = False,
         content = empty_database, at_begin = empty_database,
         log = [Executed PragmaForeignKeys, Executed (PragmaForeignKeysSet False),
                Executed Begin, Executed (PragmaForeignKeysSet True)]\<rparr>)
   \<and> foreign_keys_off (ddl_transaction (call Create interrupted_half_way))
        (new_connection empty_database)
     = (Inl (Exc KeyboardInterrupt [] None),
        \<lparr>isolation_level = Some [], in_transaction = True, foreign_keys = False,
         content = empty_database\<lparr>sqlite_master := [''feeds'']\<rparr>,
         at_begin = empty_database,
         log = [Executed PragmaForeignKeys, Executed (PragmaForeignKeysSet False),
                Executed Begin, Called Create, Executed (PragmaForeignKeysSet True)]\<rparr>)"
  by (simp add: foreign_keys_off_def ddl_transaction_def set_isolation_level_def
      and_then_def execute_def fetchone_value_def return_def raise_def call_def
      isinstance_def interrupted_half_way_def new_connection_def empty_database_def Let_def)

text \<open>
  C9 (amended): \<open>foreign_keys_off\<close> requires to be entered outside a transaction: inside
  one it fails its assertion and runs nothing. Outside one, it reads the
  \<^verbatim>\<open>foreign_keys\<close> setting, switches it off and runs the block with the setting off; on
  every exit path, whether the block returns or raises (the outcome of the block is the
  outcome of the whole), the last statement it executes is \<^verbatim>\<open>PRAGMA foreign_keys = \<close> the
  value read before, \<^verbatim>\<open>ON\<close> or \<^verbatim>\<open>OFF\<close>, not always \<^verbatim>\<open>ON\<close>. The statement restores the value
  read whenever the block has left no transaction open; when the block has left one
  open the engine ignores it and the setting stays as the block left it. The rest of
  the connection is as the block left it.
\<close>

theorem foreign_keys_off_restores:
  "(in_transaction db \<longrightarrow>
      foreign_keys_off body db =
        (Inl (Exc AssertionError ''foreign_keys_off must be used outside transactions'' None),
         db))
   \<and> (\<not> in_transaction db \<longrightarrow>
        log (in_foreign_keys_off db)
          = log db @ [Executed PragmaForeignKeys, Executed (PragmaForeignKeysSet False)]
        \<and> foreign_keys (in_foreign_keys_off db) = False
        \<and> fst (foreign_keys_off body db) = fst (body (in_foreign_keys_off db))
        \<and> log (snd (foreign_keys_off body db))
            = log (snd (body (in_foreign_keys_off db)))
                @ [Executed (PragmaForeignKeysSet (foreign_keys db))]
        \<and> (\<not> in_transaction (snd (body (in_foreign_keys_off db))) \<longrightarrow>
              foreign_keys (snd (foreign_keys_off body db)) = foreign_keys db)
        \<and> (in_transaction (snd (body (in_foreign_keys_off db))) \<longrightarrow>
              foreign_keys (snd (foreign_keys_off body db))
                = foreign_keys (snd (body (in_foreign_keys_off db))))
        \<and> content (snd (foreign_keys_off body db))
            = content (snd (body (in_foreign_keys_off db)))
        \<and> in_transaction (snd (foreign_keys_off body db))
            = in_transaction (snd (body (in_foreign_keys_off db)))
        \<and> isolation_level (snd (foreign_keys_off body db))
            = isolation_level (snd (body (in_foreign_keys_off db))))"
proof (intro conjI impI)
  assume "in_transaction db"
  then show "foreign_keys_off body db =
      (Inl (Exc AssertionError ''foreign_keys_off must be used outside transactions'' None),
       db)"
    by (rule foreign_keys_off_inside)
next
  show "log (in_foreign_keys_off db)
      = log db @ [Executed PragmaForeignKeys, Executed (PragmaForeignKeysSet False)]"
    and "foreign_keys (in_foreign_keys_off db) = False"
    by (simp_all add: in_foreign_keys_off_def)
next
  assume out: "\<not> in_transaction db"
  note unfolded = foreign_keys_off_outside[OF out, of body, folded in_foreign_keys_off_def]
  show "fst (foreign_keys_off body db) = fst (body (in_foreign_keys_off db))"
    and "log (snd (foreign_keys_off body db))
      = log (snd (body (in_foreign_keys_off db)))
          @ [Executed (PragmaForeignKeysSet (foreign_keys db))]"
    and "content (snd (foreign_keys_off body db))
      = content (snd (body (in_foreign_keys_off db)))"
    and "in_transaction (snd (foreign_keys_off body db))
      = in_transaction (snd (body (in_foreign_keys_off db)))"
    and "isolation_level (snd (foreign_keys_off body db))
      = isolation_level (snd (body (in_foreign_keys_off db)))"
    unfolding unfolded by (simp_all add: execute_set_foreign_keys)
  {
    assume "\<not> in_transaction (snd (body (in_foreign_keys_off db)))"
    then show "foreign_keys (snd (foreign_keys_off body db)) = foreign_keys db"
      unfolding unfolded by (simp add: execute_set_foreign_keys)
  next
    assume "in_transaction (snd (body (in_foreign_keys_off db)))"
    then show "foreign_keys (snd (foreign_keys_off body db))
        = foreign_keys (snd (body (in_foreign_keys_off db)))"
      unfolding unfolded by (simp add: execute_set_foreign_keys)
  }
qed

theorem foreign_keys_off_restores_witness:
  "foreign_keys_off (return ()) (busy_connection empty_database)
     = (Inl (Exc AssertionError ''foreign_keys_off must be used outside transactions'' None),
        busy_connection empty_database)
   \<and> foreign_keys_off (return ()) (new_connection empty_database)
     = (Inr (),
        \<lparr>isolation_level = Some [], in_transaction = False, foreign_keys = True,
         content = empty_database, at_begin = empty_database,
         log = [Executed PragmaForeignKeys, Executed (PragmaForeignKeysSet False),
                Executed (PragmaForeignKeysSet True)]\<rparr>)
   \<and> foreign_keys_off (raise (Exc ValueError ''no'' None))
        ((new_connection empty_database)\<lparr>foreign_keys := False\<rparr>)
     = (Inl (Exc ValueError ''no'' None),
        \<lparr>isolation_level = Some [], in_transaction = False, foreign_keys = False,
         content = empty_database, at_begin = empty_database,
         log = [Executed PragmaForeignKeys, Executed (PragmaForeignKeysSet False),
                Executed (PragmaForeignKeysSet False)]\<rparr>)
   \<and> foreign_keys (snd (foreign_keys_off (and_then (execute Begin) (\<lambda>_. return ()))
        (new_connection empty_database))) = False"
  using foreign_keys_off_restores [of "busy_connection empty_database" "return ()"]
        foreign_keys_off_restores [of "new_connection empty_database" "return ()"]
        foreign_keys_off_restores
          [of "(new_connection empty_database)\<lparr>foreign_keys := False\<rparr>"
              "raise (Exc ValueError ''no'' None)"]
        foreign_keys_off_restores
          [of "new_connection empty_database" "and_then (execute Begin) (\<lambda>_. return ())"]
  by (simp add: foreign_keys_off_def in_foreign_keys_off_def and_then_def execute_def
      fetchone_value_def return_def raise_def new_connection_def busy_connection_def Let_def)

subsection \<open>\<open>ddl_transaction\<close> and the atomicity of \<open>migrate\<close>\<close>

text \<open>
  C4 (as stated): \<^verbatim>\<open>ROLLBACK\<close> is executed when the block raises any exception, and so a
  \<open>migrate\<close> that fails leaves the database unchanged. The \<^verbatim>\<open>except\<close> clause catches
  \<^verbatim>\<open>Exception\<close> only: when the block is interrupted (\<^verbatim>\<open>KeyboardInterrupt\<close>) no \<^verbatim>\<open>ROLLBACK\<close>
  is executed. On a connection with the default isolation level the transaction stays
  open with the changes made so far (first input); on one opened with
  \<^verbatim>\<open>isolation_level=None\<close> the last assignment of \<open>ddl_transaction\<close> commits them (second
  input). And after a \<open>migrate\<close> interrupted in \<^verbatim>\<open>create\<close> the content differs from the
  content before, and foreign keys stay off (third input).
\<close>

theorem ddl_transaction_not_on_interrupt:
  "ddl_transaction (call Create interrupted_half_way) (new_connection empty_database)
     = (Inl (Exc KeyboardInterrupt [] None),
        \<lparr>isolation_level = Some [], in_transaction = True, foreign_keys = True,
         content = empty_database\<lparr>sqlite_master := [''feeds'']\<rparr>,
         at_begin = empty_database,
         log = [Executed Begin, Called Create]\<rparr>)
   \<and> ddl_transaction (call Create interrupted_half_way)
        ((new_connection empty_database)\<lparr>isolation_level := None\<rparr>)
     = (Inl (Exc KeyboardInterrupt [] None),
        \<lparr>isolation_level = None, in_transaction = False, foreign_keys = True,
         content = empty_database\<lparr>sqlite_master := [''feeds'']\<rparr>,
         at_begin = empty_database,
         log = [Executed Begin, Called Create, ImplicitCommit]\<rparr>)
   \<and> migrate \<lparr>create = interrupted_half_way, version = 1, migrations = Map.empty, id' = 0\<rparr>
        (new_connection empty_database)
     = (Inl (Exc KeyboardInterrupt [] None),
        \<lparr>isolation_level = Some [], in_transaction = True, foreign_keys = False,
         content = empty_database\<lparr>sqlite_master := [''feeds'']\<rparr>,
         at_begin = empty_database,
         log = [Executed PragmaForeignKeys, Executed (PragmaForeignKeysSet False),
                Executed Begin, Executed (PragmaGet ''user_version''),
                Executed SelectCountSqliteMaster, Called Create,
                Executed (PragmaForeignKeysSet True)]\<rparr>)
   \<and> content (snd (migrate
          \<lparr>create = interrupted_half_way, version = 1, migrations = Map.empty, id' = 0\<rparr>
          (new_connection empty_database)))
     \<noteq> content (new_connection empty_database)"
  by (simp add: migrate_def migrate_body_def foreign_keys_off_def ddl_transaction_def
      set_isolation_level_def
      and_then_def execute_def fetchone_value_def return_def raise_def call_def
      get_version_def get_int_pragma_def table_count_def isinstance_def
      interrupted_half_way_def new_connection_def empty_database_def Let_def)

text \<open>
  C4 (amended): \<open>ddl_transaction\<close> restores the connection's \<^verbatim>\<open>isolation_level\<close> on every
  exit path. It first assigns \<^verbatim>\<open>None\<close> to \<^verbatim>\<open>isolation_level\<close>, which commits a transaction
  the caller had open, and executes \<^verbatim>\<open>BEGIN\<close> before the block. Then:
  \<^item> when the block returns, it executes \<^verbatim>\<open>COMMIT\<close> and returns what the block returned;
  \<^item> when the block raises an instance of \<^verbatim>\<open>Exception\<close>, it executes \<^verbatim>\<open>ROLLBACK\<close>, which
    brings back the content of the moment the open transaction began, and raises the
    same exception again;
  \<^item> when the block raises any other exception (\<^verbatim>\<open>KeyboardInterrupt\<close>, \<^verbatim>\<open>SystemExit\<close>,
    \<^verbatim>\<open>GeneratorExit\<close>), it executes neither and the exception passes through; the
    transaction is left open with the block's changes, or, when the isolation level to
    restore is \<^verbatim>\<open>None\<close>, committed with them by the last assignment;
  \<^item> these three hold for a block that leaves the transaction open; when the block has
    ended the transaction itself, the \<^verbatim>\<open>COMMIT\<close> or \<^verbatim>\<open>ROLLBACK\<close> is executed all the same
    and fails, and \<open>ddl_transaction\<close> raises the \<^verbatim>\<open>OperationalError\<close> of the \<^verbatim>\<open>ROLLBACK\<close>.
  Consequently a \<open>migrate\<close> that fails with an instance of \<^verbatim>\<open>Exception\<close> leaves the
  content of the database, and the connection's transaction state, isolation level and
  foreign-key setting, as they were. Here \<^verbatim>\<open>create\<close> and the migration functions are
  functions of the content, as in the whole model of \<open>migrate\<close>: they do not commit or
  roll back on their own and leave the connection's settings alone.
\<close>

theorem ddl_transaction_commit_rollback:
  "isolation_level (snd (ddl_transaction body db)) = isolation_level db
   \<and> log (in_ddl_transaction db)
       = log db @ (if in_transaction db then [ImplicitCommit] else []) @ [Executed Begin]
   \<and> content (in_ddl_transaction db) = content db
   \<and> at_begin (in_ddl_transaction db) = content db
   \<and> in_transaction (in_ddl_transaction db)
   \<and> (\<forall>x left. body (in_ddl_transaction db) = (Inr x, left) \<longrightarrow>
         ddl_transaction body db
           = (if in_transaction left
              then (Inr x,
                    left\<lparr>log := log left @ [Executed Commit], in_transaction := False,
                         isolation_level := isolation_level db\<rparr>)
              else (Inl (Exc OperationalError
                      ''cannot rollback - no transaction is active'' None),
                    left\<lparr>log := log left @ [Executed Commit, Executed Rollback],
                         isolation_level := isolation_level db\<rparr>)))
   \<and> (\<forall>e left. body (in_ddl_transaction db) = (Inl e, left) \<and> isinstance e Exception
           \<longrightarrow>
         ddl_transaction body db
           = (if in_transaction left
              then (Inl e,
                    left\<lparr>log := log left @ [Executed Rollback], in_transaction := False,
                         content := at_begin left,
                         isolation_level := isolation_level db\<rparr>)
              else (Inl (Exc OperationalError
                      ''cannot rollback - no transaction is active'' None),
                    left\<lparr>log := log left @ [Executed Rollback],
                         isolation_level := isolation_level db\<rparr>)))
   \<and> (\<forall>e left. body (in_ddl_transaction db) = (Inl e, left)
           \<and> \<not> isinstance e Exception \<longrightarrow>
         ddl_transaction body db
           = (Inl e,
              if isolation_level db = None \<and> in_transaction left
              then left\<lparr>isolation_level := None, log := log left @ [ImplicitCommit],
                        in_transaction := False\<rparr>
              else left\<lparr>isolation_level := isolation_level db\<rparr>))
   \<and> (\<forall>e. fst (migrate self db) = Inl e \<and> isinstance e Exception \<longrightarrow>
         content (snd (migrate self db)) = content db
         \<and> in_transaction (snd (migrate self db)) = in_transaction db
         \<and> isolation_level (snd (migrate self db)) = isolation_level db
         \<and> foreign_keys (snd (migrate self db)) = foreign_keys db)"
proof (intro conjI impI allI)
  show "isolation_level (snd (ddl_transaction body db)) = isolation_level db"
    by (rule ddl_transaction_isolation_level)
next
  show "log (in_ddl_transaction db)
      = log db @ (if in_transaction db then [ImplicitCommit] else []) @ [Executed Begin]"
    and "content (in_ddl_transaction db) = content db"
    and "at_begin (in_ddl_transaction db) = content db"
    and "in_transaction (in_ddl_transaction db)"
    by (simp_all add: in_ddl_transaction_def)
next
  fix x left
  assume "body (in_ddl_transaction db) = (Inr x, left)"
  then show "ddl_transaction body db
      = (if in_transaction left
         then (Inr x,
               left\<lparr>log := log left @ [Executed Commit], in_transaction := False,
                    isolation_level := isolation_level db\<rparr>)
         else (Inl (Exc OperationalError
                 ''cannot rollback - no transaction is active'' None),
               left\<lparr>log := log left @ [Executed Commit, Executed Rollback],
                    isolation_level := isolation_level db\<rparr>))"
    by (simp add: ddl_transaction_unfolded and_then_def execute_def return_def raise_def
        set_isolation_level_def isinstance_def Let_def)
next
  fix e left
  assume "body (in_ddl_transaction db) = (Inl e, left) \<and> isinstance e Exception"
  then show "ddl_transaction body db
      = (if in_transaction left
         then (Inl e,
               left\<lparr>log := log left @ [Executed Rollback], in_transaction := False,
                    content := at_begin left,
                    isolation_level := isolation_level db\<rparr>)
         else (Inl (Exc OperationalError
                 ''cannot rollback - no transaction is active'' None),
               left\<lparr>log := log left @ [Executed Rollback],
                    isolation_level := isolation_level db\<rparr>))"
    by (simp add: ddl_transaction_unfolded and_then_def execute_def return_def raise_def
        set_isolation_level_def Let_def)
next
  fix e left
  assume "body (in_ddl_transaction db) = (Inl e, left) \<and> \<not> isinstance e Exception"
  then show "ddl_transaction body db
      = (Inl e,
         if isolation_level db = None \<and> in_transaction left
         then left\<lparr>isolation_level := None, log := log left @ [ImplicitCommit],
                   in_transaction := False\<rparr>
         else left\<lparr>isolation_level := isolation_level db\<rparr>)"
    by (simp add: ddl_transaction_unfolded and_then_def set_isolation_level_def Let_def)
next
  fix e
  assume a: "fst (migrate self db) = Inl e \<and> isinstance e Exception"
  then have "fst (migrate self db) = Inl e" and "isinstance e Exception" by simp_all
  from migrate_atomic[OF this]
  show "content (snd (migrate self db)) = content db"
    and "in_transaction (snd (migrate self db)) = in_transaction db"
    and "isolation_level (snd (migrate self db)) = isolation_level db"
    and "foreign_keys (snd (migrate self db)) = foreign_keys db"
    by simp_all
qed

theorem ddl_transaction_commit_rollback_witness:
  "ddl_transaction (call Create create_tables) (new_connection empty_database)
     = (Inr (),
        \<lparr>isolation_level = Some [], in_transaction = False, foreign_keys = True,
         content = empty_database\<lparr>sqlite_master := [''feeds'', ''entries'']\<rparr>,
         at_begin = empty_database,
         log = [Executed Begin, Called Create, Executed Commit]\<rparr>)
   \<and> ddl_transaction (call Create fail_half_way) (busy_connection empty_database)
     = (Inl (Exc OperationalError ''disk I/O error'' None),
        \<lparr>isolation_level = Some [], in_transaction = False, foreign_keys = True,
         content = empty_database, at_begin = empty_database,
         log = [ImplicitCommit, Executed Begin, Called Create, Executed Rollback]\<rparr>)
   \<and> ddl_transaction (call Create interrupted_half_way)
        ((new_connection empty_database)\<lparr>isolation_level := None\<rparr>)
     = (Inl (Exc KeyboardInterrupt [] None),
        \<lparr>isolation_level = None, in_transaction = False, foreign_keys = True,
         content = empty_database\<lparr>sqlite_master := [''feeds'']\<rparr>,
         at_begin = empty_database,
         log = [Executed Begin, Called Create, ImplicitCommit]\<rparr>)
   \<and> fst (migrate \<lparr>create = fail_half_way, version = 1, migrations = Map.empty, id' = 0\<rparr>
          (new_connection empty_database))
     = Inl (Exc OperationalError ''disk I/O error'' None)
   \<and> content (snd (migrate
          \<lparr>create = fail_half_way, version = 1, migrations = Map.empty, id' = 0\<rparr>
          (new_connection empty_database)))
     = empty_database"
  using ddl_transaction_commit_rollback
          [of "call Create create_tables" "new_connection empty_database"
              "\<lparr>create = fail_half_way, version = 1, migrations = Map.empty, id' = 0\<rparr>"]
        ddl_transaction_commit_rollback
          [of "call Create fail_half_way" "busy_connection empty_database"
              "\<lparr>create = fail_half_way, version = 1, migrations = Map.empty, id' = 0\<rparr>"]
        ddl_transaction_commit_rollback
          [of "call Create interrupted_half_way"
              "(new_connection empty_database)\<lparr>isolation_level := None\<rparr>"
              "\<lparr>create = fail_half_way, version = 1, migrations = Map.empty, id' = 0\<rparr>"]
  by (simp add: migrate_def migrate_body_def foreign_keys_off_def ddl_transaction_def
      set_isolation_level_def
      and_then_def execute_def fetchone_value_def return_def raise_def call_def
      get_version_def get_int_pragma_def table_count_def isinstance_def
      in_ddl_transaction_def create_tables_def fail_half_way_def interrupted_half_way_def
      new_connection_def busy_connection_def empty_database_def Let_def)

section \<open>Properties of \<open>migrate\<close>\<close>

lemma get_int_pragma_user_version:
  "get_int_pragma ''user_version'' db =
     (Inr (user_version (content db)),
      db\<lparr>log := log db @ [Executed (PragmaGet ''user_version'')]\<rparr>)"
  by (simp add: get_int_pragma_def and_then_def execute_def fetchone_value_def return_def)

lemma get_int_pragma_application_id:
  "get_int_pragma ''application_id'' db =
     (Inr (application_id (content db)),
      db\<lparr>log := log db @ [Executed (PragmaGet ''application_id'')]\<rparr>)"
  by (simp add: get_int_pragma_def and_then_def execute_def fetchone_value_def return_def)

lemma table_count_eval:
  "table_count db =
     (Inr (int (length (sqlite_master (content db)))),
      db\<lparr>log := log db @ [Executed SelectCountSqliteMaster]\<rparr>)"
  by (simp add: table_count_def and_then_def execute_def fetchone_value_def return_def)

lemma int32_value_fits:
  "0 \<le> v \<Longrightarrow> v \<le> 2147483647 \<Longrightarrow> int32_value v = v"
  by (simp add: int32_value_def)

lemma set_version_eval:
  "0 \<le> v \<Longrightarrow> set_version v db =
     (Inr (), db\<lparr>log := log db @ [Executed (PragmaSet ''user_version'' v)],
                content := (content db)\<lparr>user_version := int32_value v\<rparr>\<rparr>)"
  by (simp add: set_version_def set_int_pragma_def and_then_def execute_def return_def)

lemma set_id_eval:
  "0 \<le> i \<Longrightarrow> set_id i db =
     (Inr (), db\<lparr>log := log db @ [Executed (PragmaSet ''application_id'' i)],
                content := (content db)\<lparr>application_id := int32_value i\<rparr>\<rparr>)"
  by (simp add: set_id_def set_int_pragma_def and_then_def execute_def return_def)

lemma migrate_body_id_refused:
  assumes "\<not> id_accepted self db"
  shows "migrate_body self db =
           (Inl (Exc IdError (''invalid id: 0x'' @ hex_int (application_id (content db))) None),
            db\<lparr>log := log db @ [Executed (PragmaGet ''application_id'')]\<rparr>)"
  using assms
  by (simp add: migrate_body_def id_accepted_def and_then_def get_id_def
      get_int_pragma_application_id raise_def)

lemma migrate_body_version_high:
  assumes "id_accepted self db"
    and "user_version (content db) \<noteq> 0"
    and "version self < user_version (content db)"
  shows "migrate_body self db =
           (Inl (Exc SchemaVersionError
                  (''invalid version: '' @ str_int (user_version (content db))) None),
            db\<lparr>log := log db @ reads_before self\<rparr>)"
  using assms
  by (auto simp: migrate_body_def id_accepted_def and_then_def get_id_def get_version_def
      get_int_pragma_application_id get_int_pragma_user_version raise_def return_def
      reads_before_def)

lemma in_migration_content [simp]: "content (in_migration db) = content db"
  by (simp add: in_migration_def)

lemma id_accepted_in_migration [simp]:
  "id_accepted self (in_migration db) = id_accepted self db"
  by (simp add: id_accepted_def)

lemma hex_int_small: "hex_int 7 = ''7''"
  by (simp add: hex_int_def hex_nat.simps digit_char_def)

lemma str_int_small: "str_int 1 = ''1''" "str_int 2 = ''2''" "str_int 3 = ''3''" "str_int 4 = ''4''"
  by (simp_all add: str_int_def str_nat.simps digit_char_def)

lemma migrate_body_tables:
  assumes "id_accepted self db"
    and "user_version (content db) = 0"
    and "sqlite_master (content db) \<noteq> []"
  shows "migrate_body self db =
           (Inl (Exc DBError ''database with no version already has tables'' None),
            db\<lparr>log := log db @ reads_before self @ [Executed SelectCountSqliteMaster]\<rparr>)"
  using assms
  by (auto simp: migrate_body_def id_accepted_def and_then_def get_id_def get_version_def
      get_int_pragma_application_id get_int_pragma_user_version table_count_eval
      raise_def return_def reads_before_def)

lemma migrate_body_create:
  assumes "id_accepted self db"
    and "user_version (content db) = 0"
    and "sqlite_master (content db) = []"
    and "create self (content db) = (None, d)"
    and "0 \<le> version self" and "0 \<le> id' self"
  shows "fst (migrate_body self db) = Inr ()"
    and "content (snd (migrate_body self db))
           = d\<lparr>user_version := int32_value (version self),
               application_id := int32_value (id' self)\<rparr>"
    and "log (snd (migrate_body self db))
           = log db @ reads_before self
               @ [Executed SelectCountSqliteMaster, Called Create,
                  Executed (PragmaSet ''user_version'' (version self)),
                  Executed (PragmaSet ''application_id'' (id' self))]"
  using assms
  by (auto simp: migrate_body_def id_accepted_def and_then_def get_id_def get_version_def
      get_int_pragma_application_id get_int_pragma_user_version table_count_eval
      set_version_eval set_id_eval call_def Let_def
      raise_def return_def reads_before_def)

lemma migrate_body_create_raises:
  assumes "id_accepted self db"
    and "user_version (content db) = 0"
    and "sqlite_master (content db) = []"
    and "create self (content db) = (Some e, d)"
  shows "fst (migrate_body self db) = Inl e"
    and "log (snd (migrate_body self db))
           = log db @ reads_before self @ [Executed SelectCountSqliteMaster, Called Create]"
  using assms
  by (auto simp: migrate_body_def id_accepted_def and_then_def get_id_def get_version_def
      get_int_pragma_application_id get_int_pragma_user_version table_count_eval
      call_def Let_def raise_def return_def reads_before_def)

lemma in_migration_log:
  "log (in_migration db) = log db @ [Executed PragmaForeignKeys,
     Executed (PragmaForeignKeysSet False), Executed Begin]"
  by (simp add: in_migration_def)

subsection \<open>A version above the target\<close>

text \<open>
  C2 (as stated): for every database whose stored version is above the target,
  \<open>migrate\<close> raises \<^verbatim>\<open>SchemaVersionError\<close>. The stored version is 4 and the target 3 in both
  inputs below. In the first the stored application id is neither zero nor the
  configured one: the id check at the head of \<open>migrate\<close> raises \<^verbatim>\<open>IdError\<close> before the version
  is read. In the second the connection is inside a transaction: \<^verbatim>\<open>foreign_keys_off\<close>
  fails its assertion.
\<close>

theorem migrate_version_too_high_refused:
  "fst (migrate \<lparr>create = create_tables, version = 3, migrations = Map.empty, id' = 102\<rparr>
          (new_connection (empty_database\<lparr>user_version := 4, application_id := 7\<rparr>)))
     = Inl (Exc IdError ''invalid id: 0x7'' None)
   \<and> fst (migrate \<lparr>create = create_tables, version = 3, migrations = Map.empty, id' = 102\<rparr>
          (busy_connection (empty_database\<lparr>user_version := 4\<rparr>)))
     = Inl (Exc AssertionError ''foreign_keys_off must be used outside transactions'' None)"
  by (simp add: migrate_def migrate_body_def foreign_keys_off_def ddl_transaction_def
      set_isolation_level_def int32_value_def
      and_then_def execute_def fetchone_value_def return_def raise_def
      get_id_def get_int_pragma_def isinstance_def hex_int_small
      new_connection_def busy_connection_def empty_database_def Let_def)

text \<open>
  C2 (amended): for a migration with a positive target version, called on a connection
  outside a transaction to a database whose application id the check accepts and whose
  stored \<^verbatim>\<open>user_version\<close> is above the target, \<open>migrate\<close> raises \<^verbatim>\<open>SchemaVersionError\<close> with the
  message "invalid version: " followed by the stored version, and leaves the content as
  it was.
\<close>

theorem migrate_version_too_high:
  "\<not> in_transaction db \<and> id_accepted self db \<and> 0 < version self
     \<and> version self < user_version (content db) \<longrightarrow>
   fst (migrate self db)
     = Inl (Exc SchemaVersionError
             (''invalid version: '' @ str_int (user_version (content db))) None)
   \<and> content (snd (migrate self db)) = content db"
proof
  assume a: "\<not> in_transaction db \<and> id_accepted self db \<and> 0 < version self
     \<and> version self < user_version (content db)"
  let ?e = "Exc SchemaVersionError
              (''invalid version: '' @ str_int (user_version (content db))) None"
  from a have body: "migrate_body self (in_migration db)
      = (Inl ?e, (in_migration db)\<lparr>log := log (in_migration db) @ reads_before self\<rparr>)"
    using migrate_body_version_high[of self "in_migration db"] by simp
  have exc: "isinstance ?e Exception" by (simp add: isinstance_def)
  from a have out: "\<not> in_transaction db" by simp
  from migrate_raises(1,2)[OF out body exc]
  show "fst (migrate self db) = Inl ?e \<and> content (snd (migrate self db)) = content db"
    by simp
qed

theorem migrate_version_too_high_witness:
  "\<not> in_transaction (new_connection (empty_database\<lparr>user_version := 4\<rparr>))
   \<and> fst (migrate \<lparr>create = create_tables, version = 3, migrations = Map.empty, id' = 102\<rparr>
          (new_connection (empty_database\<lparr>user_version := 4\<rparr>)))
     = Inl (Exc SchemaVersionError ''invalid version: 4'' None)
   \<and> content (snd (migrate
          \<lparr>create = create_tables, version = 3, migrations = Map.empty, id' = 102\<rparr>
          (new_connection (empty_database\<lparr>user_version := 4\<rparr>))))
     = empty_database\<lparr>user_version := 4\<rparr>"
  using migrate_version_too_high
          [of "new_connection (empty_database\<lparr>user_version := 4\<rparr>)"
              "\<lparr>create = create_tables, version = 3, migrations = Map.empty, id' = 102\<rparr>"]
  by (simp add: id_accepted_def new_connection_def empty_database_def str_int_small)

subsection \<open>A database with no version\<close>

text \<open>
  C3 (as stated): for every database whose stored version is 0 and that has no tables,
  \<open>migrate\<close> runs \<^verbatim>\<open>create\<close> and sets the version and the id. In the first input below the
  stored application id is neither zero nor the configured one: \<open>migrate\<close> raises
  \<^verbatim>\<open>IdError\<close>, \<^verbatim>\<open>create\<close> is never called and the version stays 0. In the second the
  connection is inside a transaction: the assertion of \<^verbatim>\<open>foreign_keys_off\<close> fails and
  nothing is executed. In the third the target version is \<open>2\<^sup>3\<^sup>1\<close>, which the 32-bit
  field of the file cannot hold: \<open>migrate\<close> runs \<^verbatim>\<open>create\<close> and returns, but the
  \<^verbatim>\<open>user_version\<close> it leaves is 0, not the target.
\<close>

theorem migrate_unversioned_refused:
  "fst (migrate \<lparr>create = create_tables, version = 3, migrations = Map.empty, id' = 102\<rparr>
          (new_connection (empty_database\<lparr>application_id := 7\<rparr>)))
     = Inl (Exc IdError ''invalid id: 0x7'' None)
   \<and> snd (migrate \<lparr>create = create_tables, version = 3, migrations = Map.empty, id' = 102\<rparr>
          (new_connection (empty_database\<lparr>application_id := 7\<rparr>)))
     = \<lparr>isolation_level = Some [], in_transaction = False, foreign_keys = True,
        content = empty_database\<lparr>application_id := 7\<rparr>,
        at_begin = empty_database\<lparr>application_id := 7\<rparr>,
        log = [Executed PragmaForeignKeys, Executed (PragmaForeignKeysSet False),
               Executed Begin, Executed (PragmaGet ''application_id''),
               Executed Rollback, Executed (PragmaForeignKeysSet True)]\<rparr>
   \<and> migrate \<lparr>create = create_tables, version = 3, migrations = Map.empty, id' = 102\<rparr>
          (busy_connection empty_database)
     = (Inl (Exc AssertionError ''foreign_keys_off must be used outside transactions'' None),
        busy_connection empty_database)
   \<and> fst (migrate
          \<lparr>create = create_tables, version = 2147483648, migrations = Map.empty, id' = 0\<rparr>
          (new_connection empty_database))
     = Inr ()
   \<and> user_version (content (snd (migrate
          \<lparr>create = create_tables, version = 2147483648, migrations = Map.empty, id' = 0\<rparr>
          (new_connection empty_database))))
     = 0"
  by (simp add: migrate_def migrate_body_def foreign_keys_off_def ddl_transaction_def
      set_isolation_level_def int32_value_def
      and_then_def execute_def fetchone_value_def return_def raise_def call_def
      get_id_def get_version_def set_version_def set_id_def get_int_pragma_def
      set_int_pragma_def table_count_def isinstance_def hex_int_small create_tables_def
      new_connection_def busy_connection_def empty_database_def Let_def)

text \<open>
  C3 (amended): on a connection outside a transaction to a database whose application
  id the check accepts and whose stored \<^verbatim>\<open>user_version\<close> is 0:
  \<^item> if \<^verbatim>\<open>sqlite_master\<close> is not empty, \<open>migrate\<close> raises
    \<^verbatim>\<open>DBError("database with no version already has tables")\<close>, without calling \<^verbatim>\<open>create\<close>,
    and the content stays as it was;
  \<^item> otherwise it calls \<^verbatim>\<open>create\<close>; when that returns (and the target version is positive
    and the configured id not negative, as \<^verbatim>\<open>set_int_pragma\<close> requires, and neither is
    above \<open>2\<^sup>3\<^sup>1 - 1\<close>, the largest value the 32-bit fields of the file hold) it sets
    \<^verbatim>\<open>user_version\<close> to the target and \<^verbatim>\<open>application_id\<close> to the configured id, commits and
    returns: no migration function is called;
  \<^item> when \<^verbatim>\<open>create\<close> raises, \<open>migrate\<close> raises the same exception.
  \<^verbatim>\<open>create\<close> is a function of the content: it does not commit or roll back on its own
  and leaves the connection's settings alone.
\<close>

theorem migrate_unversioned:
  "\<not> in_transaction db \<and> id_accepted self db \<and> user_version (content db) = 0 \<longrightarrow>
     (sqlite_master (content db) \<noteq> [] \<longrightarrow>
        fst (migrate self db)
          = Inl (Exc DBError ''database with no version already has tables'' None)
        \<and> content (snd (migrate self db)) = content db
        \<and> log (snd (migrate self db))
            = log db @ [Executed PragmaForeignKeys, Executed (PragmaForeignKeysSet False),
                        Executed Begin] @ reads_before self
                @ [Executed SelectCountSqliteMaster, Executed Rollback,
                   Executed (PragmaForeignKeysSet (foreign_keys db))])
     \<and> (sqlite_master (content db) = [] \<and> create self (content db) = (None, d)
          \<and> 0 < version self \<and> version self \<le> 2147483647
          \<and> 0 \<le> id' self \<and> id' self \<le> 2147483647 \<longrightarrow>
        fst (migrate self db) = Inr ()
        \<and> content (snd (migrate self db))
            = d\<lparr>user_version := version self, application_id := id' self\<rparr>
        \<and> log (snd (migrate self db))
            = log db @ [Executed PragmaForeignKeys, Executed (PragmaForeignKeysSet False),
                        Executed Begin] @ reads_before self
                @ [Executed SelectCountSqliteMaster, Called Create,
                   Executed (PragmaSet ''user_version'' (version self)),
                   Executed (PragmaSet ''application_id'' (id' self)),
                   Executed Commit, Executed (PragmaForeignKeysSet (foreign_keys db))])
     \<and> (sqlite_master (content db) = [] \<and> create self (content db) = (Some e, d') \<longrightarrow>
        fst (migrate self db) = Inl e)"
proof (intro impI conjI)
  assume a: "\<not> in_transaction db \<and> id_accepted self db \<and> user_version (content db) = 0"
  then have out: "\<not> in_transaction db" by simp
  let ?e = "Exc DBError ''database with no version already has tables'' None"
  assume tables: "sqlite_master (content db) \<noteq> []"
  from a tables have body: "migrate_body self (in_migration db)
      = (Inl ?e, (in_migration db)\<lparr>log := log (in_migration db) @ reads_before self
                                     @ [Executed SelectCountSqliteMaster]\<rparr>)"
    using migrate_body_tables[of self "in_migration db"] by simp
  have exc: "isinstance ?e Exception" by (simp add: isinstance_def)
  from migrate_raises(1,2,3)[OF out body exc]
  show "fst (migrate self db) = Inl ?e"
    and "content (snd (migrate self db)) = content db"
    and "log (snd (migrate self db))
            = log db @ [Executed PragmaForeignKeys, Executed (PragmaForeignKeysSet False),
                        Executed Begin] @ reads_before self
                @ [Executed SelectCountSqliteMaster, Executed Rollback,
                   Executed (PragmaForeignKeysSet (foreign_keys db))]"
    by (simp_all add: in_migration_log)
next
  assume a: "\<not> in_transaction db \<and> id_accepted self db \<and> user_version (content db) = 0"
  then have out: "\<not> in_transaction db" by simp
  assume b: "sqlite_master (content db) = [] \<and> create self (content db) = (None, d)
          \<and> 0 < version self \<and> version self \<le> 2147483647
          \<and> 0 \<le> id' self \<and> id' self \<le> 2147483647"
  then have fits: "int32_value (version self) = version self"
    "int32_value (id' self) = id' self"
    by (simp_all add: int32_value_fits)
  obtain left where body: "migrate_body self (in_migration db) = (Inr (), left)"
    using migrate_body_create(1)[of self "in_migration db" d] a b
    by (cases "migrate_body self (in_migration db)") auto
  from migrate_body_create(2,3)[of self "in_migration db" d] a b body fits
  have left: "content left = d\<lparr>user_version := version self, application_id := id' self\<rparr>"
    "log left = log (in_migration db) @ reads_before self
               @ [Executed SelectCountSqliteMaster, Called Create,
                  Executed (PragmaSet ''user_version'' (version self)),
                  Executed (PragmaSet ''application_id'' (id' self))]"
    by simp_all
  from migrate_returns(1,2,3)[OF out body] left
  show "fst (migrate self db) = Inr ()"
    and "content (snd (migrate self db))
            = d\<lparr>user_version := version self, application_id := id' self\<rparr>"
    and "log (snd (migrate self db))
            = log db @ [Executed PragmaForeignKeys, Executed (PragmaForeignKeysSet False),
                        Executed Begin] @ reads_before self
                @ [Executed SelectCountSqliteMaster, Called Create,
                   Executed (PragmaSet ''user_version'' (version self)),
                   Executed (PragmaSet ''application_id'' (id' self)),
                   Executed Commit, Executed (PragmaForeignKeysSet (foreign_keys db))]"
    by (simp_all add: in_migration_log)
next
  assume a: "\<not> in_transaction db \<and> id_accepted self db \<and> user_version (content db) = 0"
  then have out: "\<not> in_transaction db" by simp
  assume b: "sqlite_master (content db) = [] \<and> create self (content db) = (Some e, d')"
  obtain left where body: "migrate_body self (in_migration db) = (Inl e, left)"
    using migrate_body_create_raises(1)[of self "in_migration db" e d'] a b
    by (cases "migrate_body self (in_migration db)") auto
  show "fst (migrate self db) = Inl e"
    using migrate_raises(1)[OF out body] migrate_passes(1)[OF out body] by blast
qed

theorem migrate_unversioned_witness:
  "\<not> in_transaction (new_connection empty_database)
   \<and> migrate \<lparr>create = create_tables, version = 3, migrations = Map.empty, id' = 102\<rparr>
        (new_connection empty_database)
     = (Inr (),
        \<lparr>isolation_level = Some [], in_transaction = False, foreign_keys = True,
         content = \<lparr>user_version = 3, application_id = 102,
                    sqlite_master = [''feeds'', ''entries''], foreign_key_violations = []\<rparr>,
         at_begin = empty_database,
         log = [Executed PragmaForeignKeys, Executed (PragmaForeignKeysSet False),
                Executed Begin, Executed (PragmaGet ''application_id''),
                Executed (PragmaGet ''user_version''), Executed SelectCountSqliteMaster,
                Called Create, Executed (PragmaSet ''user_version'' 3),
                Executed (PragmaSet ''application_id'' 102), Executed Commit,
                Executed (PragmaForeignKeysSet True)]\<rparr>)
   \<and> fst (migrate \<lparr>create = create_tables, version = 3, migrations = Map.empty, id' = 102\<rparr>
        (new_connection (empty_database\<lparr>sqlite_master := [''notes'']\<rparr>)))
     = Inl (Exc DBError ''database with no version already has tables'' None)
   \<and> fst (migrate \<lparr>create = fail_half_way, version = 3, migrations = Map.empty, id' = 102\<rparr>
        (new_connection empty_database))
     = Inl (Exc OperationalError ''disk I/O error'' None)"
  using migrate_unversioned
          [of "new_connection empty_database"
              "\<lparr>create = create_tables, version = 3, migrations = Map.empty, id' = 102\<rparr>"
              "empty_database\<lparr>sqlite_master := [''feeds'', ''entries'']\<rparr>"]
        migrate_unversioned
          [of "new_connection (empty_database\<lparr>sqlite_master := [''notes'']\<rparr>)"
              "\<lparr>create = create_tables, version = 3, migrations = Map.empty, id' = 102\<rparr>"]
        migrate_unversioned
          [of "new_connection empty_database"
              "\<lparr>create = fail_half_way, version = 3, migrations = Map.empty, id' = 102\<rparr>"
              _ "Exc OperationalError ''disk I/O error'' None"
              "empty_database\<lparr>sqlite_master := [''feeds'']\<rparr>"]
  by (simp add: migrate_def migrate_body_def foreign_keys_off_def ddl_transaction_def
      set_isolation_level_def int32_value_def
      and_then_def execute_def fetchone_value_def return_def raise_def call_def
      get_id_def get_version_def set_version_def set_id_def get_int_pragma_def
      set_int_pragma_def table_count_def isinstance_def
      id_accepted_def reads_before_def create_tables_def fail_half_way_def
      new_connection_def empty_database_def Let_def)

subsection \<open>The steps from a version below the target\<close>

lemma migrate_fst:
  assumes "\<not> in_transaction db" and "migrate_body self (in_migration db) = (r, left)"
  shows "fst (migrate self db) = r"
proof (cases r)
  case (Inr x)
  with migrate_returns(1)[OF assms(1)] assms(2) show ?thesis by simp
next
  case (Inl e)
  with assms(2) have b: "migrate_body self (in_migration db) = (Inl e, left)" by simp
  from migrate_raises(1)[OF assms(1) b] migrate_passes(1)[OF assms(1) b] Inl
  show ?thesis by blast
qed

lemma and_then_assoc:
  "and_then (and_then a f) g = and_then a (\<lambda>x. and_then (f x) g)"
  by (intro ext) (simp add: and_then_def split: prod.splits sum.splits)

lemma migrate_loop_append:
  "migrate_loop self v (xs @ ys) db
     = and_then (migrate_loop self v xs) (\<lambda>_. migrate_loop self v ys) db"
proof (induction xs arbitrary: db)
  case Nil
  show ?case by (simp add: and_then_def return_def)
next
  case (Cons x xs)
  show ?case
  proof (cases "migrations self x")
    case None
    then show ?thesis by (simp add: and_then_def raise_def)
  next
    case (Some m)
    have "migrate_loop self v (xs @ ys) = and_then (migrate_loop self v xs) (\<lambda>_. migrate_loop self v ys)"
      using Cons.IH by (intro ext)
    with Some show ?thesis
      by (simp add: Let_def and_then_assoc)
  qed
qed

lemma foreign_key_check_eval:
  "foreign_key_check db =
     (if foreign_key_violations (content db) = [] then Inr ()
      else Inl (Exc IntegrityError ''FOREIGN KEY constraint failed'' None),
      db\<lparr>log := log db @ [Executed PragmaForeignKeyCheck]\<rparr>)"
  by (simp add: foreign_key_check_def and_then_def execute_def return_def raise_def)

lemma migrate_loop_missing:
  assumes "migrations self u = None"
  shows "migrate_loop self v (u # rest) db =
     (Inl (Exc SchemaVersionError
        (''no migration from '' @ str_int u @ '' to '' @ str_int (u + 1)
          @ ''; expected migrations for all versions later than '' @ str_int v) None), db)"
  using assms by (simp add: raise_def)

lemma migrate_loop_migration_raises:
  assumes "migrations self u = Some m" and "0 \<le> u + 1"
    and "m ((content db)\<lparr>user_version := int32_value (u + 1)\<rparr>) = (Some e, d)"
  shows "fst (migrate_loop self v (u # rest) db) = Inl e"
  using assms
  by (simp add: Let_def and_then_def set_version_eval call_def)

lemma migrate_loop_violation:
  assumes "migrations self u = Some m" and "0 \<le> u + 1"
    and "m ((content db)\<lparr>user_version := int32_value (u + 1)\<rparr>) = (None, d)"
    and "foreign_key_violations d \<noteq> []"
  shows "fst (migrate_loop self v (u # rest) db) =
     Inl (Exc IntegrityError
       (''after migrating to version '' @ str_int (u + 1)
         @ '': integrity error: FOREIGN KEY constraint failed'') None)"
  using assms
  by (simp add: Let_def and_then_def set_version_eval call_def foreign_key_check_eval
      isinstance_def str_exc_def)

lemma migrate_loop_step:
  assumes "migrations self u = Some m" and "0 \<le> u + 1"
    and "m ((content db)\<lparr>user_version := int32_value (u + 1)\<rparr>) = (None, d)"
    and "foreign_key_violations d = []"
  shows "migrate_loop self v (u # rest) db =
     migrate_loop self v rest
       (db\<lparr>content := d, log := log db @ step_events u\<rparr>)"
  using assms
  by (simp add: Let_def and_then_def set_version_eval call_def foreign_key_check_eval
      step_events_def)

lemma set_version_negative:
  "v < 0 \<Longrightarrow> fst (set_version v db) \<noteq> Inr ()"
  by (simp add: set_version_def set_int_pragma_def raise_def)

lemma migrate_loop_step_done:
  assumes "migrate_loop self v (u # rest) db = (Inr (), reached)"
  shows "\<exists>m d. migrations self u = Some m \<and> 0 \<le> u + 1
           \<and> m ((content db)\<lparr>user_version := int32_value (u + 1)\<rparr>) = (None, d)
           \<and> foreign_key_violations d = []"
proof (cases "migrations self u")
  case None
  with assms show ?thesis by (simp add: raise_def)
next
  case (Some m)
  have nonneg: "0 \<le> u + 1"
  proof (rule ccontr)
    assume "\<not> 0 \<le> u + 1"
    then have "u + 1 < 0" by simp
    with assms Some show False
      by (simp add: Let_def and_then_def set_version_def set_int_pragma_def raise_def)
  qed
  obtain r d where m: "m ((content db)\<lparr>user_version := int32_value (u + 1)\<rparr>) = (r, d)"
    by (cases "m ((content db)\<lparr>user_version := int32_value (u + 1)\<rparr>)")
  show ?thesis
  proof (cases r)
    case None
    show ?thesis
    proof (cases "foreign_key_violations d = []")
      case True
      with Some nonneg m None show ?thesis by simp
    next
      case False
      from migrate_loop_violation[OF Some nonneg _ False, of db v rest] m None assms
      show ?thesis by simp
    qed
  next
    case (Some e)
    from migrate_loop_migration_raises[OF \<open>migrations self u = Some m\<close> nonneg, of db e d v rest]
      m Some assms
    show ?thesis by simp
  qed
qed

lemma migrate_loop_log:
  "migrate_loop self v us db = (Inr (), reached) \<Longrightarrow>
   log reached = log db @ concat (map step_events us)"
proof (induction us arbitrary: db)
  case Nil
  then show ?case by (simp add: return_def)
next
  case (Cons u rest)
  from migrate_loop_step_done[OF Cons.prems] obtain m d where
    s: "migrations self u = Some m" "0 \<le> u + 1"
       "m ((content db)\<lparr>user_version := int32_value (u + 1)\<rparr>) = (None, d)"
       "foreign_key_violations d = []"
    by blast
  from migrate_loop_step[OF s, of v rest] Cons.prems
  have "migrate_loop self v rest (db\<lparr>content := d, log := log db @ step_events u\<rparr>)
          = (Inr (), reached)"
    by simp
  from Cons.IH[OF this] show ?case by simp
qed

lemma and_then_return: "and_then (return x) f = f x"
  by (intro ext) (simp add: and_then_def return_def)

lemma and_then_get_version:
  "and_then get_version f db =
     f (user_version (content db))
       (db\<lparr>log := log db @ [Executed (PragmaGet ''user_version'')]\<rparr>)"
  by (simp add: and_then_def get_version_def get_int_pragma_user_version)

lemma and_then_get_id:
  "and_then get_id f db =
     f (application_id (content db))
       (db\<lparr>log := log db @ [Executed (PragmaGet ''application_id'')]\<rparr>)"
  by (simp add: and_then_def get_id_def get_int_pragma_application_id)

lemma migrate_body_loop:
  assumes "id_accepted self db"
    and "user_version (content db) \<noteq> 0"
    and "user_version (content db) < version self"
  shows "migrate_body self db =
     and_then
       (migrate_loop self (user_version (content db))
          [user_version (content db)..version self - 1]) (\<lambda>_.
        if id' self \<noteq> 0
        then and_then get_id (\<lambda>i.
               if i \<noteq> id' self
               then raise (Exc IdError
                      (''missing or invalid id after migration: 0x'' @ hex_int i) None)
               else return ())
        else return ())
       (db\<lparr>log := log db @ reads_before self\<rparr>)"
proof (cases "id' self = 0")
  case True
  with assms(2,3) show ?thesis
    by (simp add: migrate_body_def and_then_return and_then_get_version reads_before_def)
next
  case False
  with assms(1) have "application_id (content db) = 0
      \<or> application_id (content db) = id' self"
    by (simp add: id_accepted_def)
  with False assms(2,3) show ?thesis
    by (auto simp: migrate_body_def and_then_return and_then_assoc and_then_get_version
        and_then_get_id reads_before_def)
qed

lemma at_loop_content [simp]: "content (at_loop self db) = content db"
  by (simp add: at_loop_def)

lemma migrate_at_loop:
  assumes "\<not> in_transaction db" and "id_accepted self db"
    and "user_version (content db) \<noteq> 0"
    and "user_version (content db) < version self"
  shows "fst (migrate self db) =
     fst (and_then
       (migrate_loop self (user_version (content db))
          [user_version (content db)..version self - 1]) (\<lambda>_.
        if id' self \<noteq> 0
        then and_then get_id (\<lambda>i.
               if i \<noteq> id' self
               then raise (Exc IdError
                      (''missing or invalid id after migration: 0x'' @ hex_int i) None)
               else return ())
        else return ())
       (at_loop self db))"
proof -
  obtain r left where body: "migrate_body self (in_migration db) = (r, left)"
    by (cases "migrate_body self (in_migration db)")
  from migrate_fst[OF assms(1) body] have "fst (migrate self db) = r" .
  moreover from body have "r = fst (migrate_body self (in_migration db))" by simp
  ultimately show ?thesis
    using migrate_body_loop[of self "in_migration db"] assms(2-4)
    by (simp add: at_loop_def)
qed

lemma upto_split_at:
  assumes "v \<le> u" and "u < t"
  shows "[v..t - 1] = [v..u - 1] @ u # [u + 1..t - 1]"
proof -
  from assms have "[v..t - 1] = [v..u - 1] @ [u..t - 1]"
    by (intro upto_split1) simp_all
  also from assms have "[u..t - 1] = u # [u + 1..t - 1]"
    by (intro upto_rec1) simp
  finally show ?thesis .
qed

lemma migrate_reaches:
  assumes "\<not> in_transaction db" and "id_accepted self db"
    and "0 < user_version (content db)"
    and "user_version (content db) \<le> u" and "u < version self"
    and "migrate_loop self (user_version (content db)) [user_version (content db)..u - 1]
           (at_loop self db) = (Inr (), reached)"
    and "fst (migrate_loop self (user_version (content db)) (u # [u + 1..version self - 1])
           reached) = Inl e"
  shows "fst (migrate self db) = Inl e"
proof -
  let ?v = "user_version (content db)"
  from assms(3,4,5) have v: "?v \<noteq> 0" "?v < version self" by simp_all
  note top = migrate_at_loop[OF assms(1,2) v]
  have split: "[?v..version self - 1] = [?v..u - 1] @ u # [u + 1..version self - 1]"
    using assms(4,5) by (rule upto_split_at)
  have "migrate_loop self ?v [?v..version self - 1] (at_loop self db)
      = migrate_loop self ?v (u # [u + 1..version self - 1]) reached"
    unfolding split migrate_loop_append using assms(6) by (simp add: and_then_def)
  then obtain left where "migrate_loop self ?v [?v..version self - 1] (at_loop self db)
      = (Inl e, left)"
    using assms(7) by (cases "migrate_loop self ?v (u # [u + 1..version self - 1]) reached") simp
  then show ?thesis unfolding top by (simp add: and_then_def)
qed

lemma migrate_completes:
  assumes "\<not> in_transaction db" and "id_accepted self db"
    and "0 < user_version (content db)"
    and "user_version (content db) < version self"
    and "migrate_loop self (user_version (content db))
           [user_version (content db)..version self - 1] (at_loop self db) = (Inr (), final)"
    and "id' self = 0 \<or> application_id (content final) = id' self"
  shows "fst (migrate self db) = Inr ()"
    and "content (snd (migrate self db)) = content final"
proof -
  let ?v = "user_version (content db)"
  from assms(3) have v: "?v \<noteq> 0" by simp
  have accepted: "id_accepted self (in_migration db)" using assms(2) by simp
  have "\<exists>left. migrate_body self (in_migration db) = (Inr (), left)
      \<and> content left = content final"
    using migrate_body_loop[of self "in_migration db"] accepted v assms(4,5,6)
    by (auto simp: at_loop_def and_then_def return_def get_id_def
        get_int_pragma_application_id)
  then obtain left where body: "migrate_body self (in_migration db) = (Inr (), left)"
    and left: "content left = content final"
    by blast
  from migrate_returns(1,2)[OF assms(1) body] left
  show "fst (migrate self db) = Inr ()"
    and "content (snd (migrate self db)) = content final"
    by simp_all
qed

lemma upto_1_2: "[1..2::int] = [1, 2]"
  by (simp add: upto_rec1)


text \<open>
  C1 (as stated): for every database whose stored version \<open>v\<close> satisfies
  \<open>0 < v < target\<close>, \<open>migrate\<close> runs the steps up to the target, and raises
  \<^verbatim>\<open>SchemaVersionError\<close> if the migration of some step is absent. The stored version is 1
  and the target 3 in the three inputs below, and in each a migration is absent. In the
  first the stored application id is neither zero nor the configured one: \<open>migrate\<close>
  raises \<^verbatim>\<open>IdError\<close> before any step. In the second the connection is inside a
  transaction: the assertion of \<^verbatim>\<open>foreign_keys_off\<close> fails. In the third the migration
  of step 2 is absent, but step 1 leaves a foreign key violation: \<open>migrate\<close> raises the
  \<^verbatim>\<open>IntegrityError\<close> of step 1 and never reaches step 2. In the fourth input the stored
  version is \<open>2\<^sup>3\<^sup>1 - 1\<close> and the target \<open>2\<^sup>3\<^sup>1\<close>, which the 32-bit field of the file
  cannot hold: the one step runs and \<open>migrate\<close> returns, but the \<^verbatim>\<open>user_version\<close> it has
  set is 0, not \<open>v + 1\<close>.
\<close>

theorem migrate_steps_refused:
  "fst (migrate \<lparr>create = create_tables, version = 3, migrations = Map.empty, id' = 102\<rparr>
          (new_connection (empty_database\<lparr>user_version := 1, application_id := 7\<rparr>)))
     = Inl (Exc IdError ''invalid id: 0x7'' None)
   \<and> fst (migrate \<lparr>create = create_tables, version = 3, migrations = Map.empty, id' = 0\<rparr>
          (busy_connection (empty_database\<lparr>user_version := 1\<rparr>)))
     = Inl (Exc AssertionError ''foreign_keys_off must be used outside transactions'' None)
   \<and> fst (migrate
          \<lparr>create = create_tables, version = 3, migrations = [1 \<mapsto> add_orphan], id' = 0\<rparr>
          (new_connection (empty_database\<lparr>user_version := 1\<rparr>)))
     = Inl (Exc IntegrityError
         ''after migrating to version 2: integrity error: FOREIGN KEY constraint failed''
         None)
   \<and> fst (migrate
          \<lparr>create = create_tables, version = 2147483648,
           migrations = [2147483647 \<mapsto> create_tables], id' = 0\<rparr>
          (new_connection (empty_database\<lparr>user_version := 2147483647\<rparr>)))
     = Inr ()
   \<and> user_version (content (snd (migrate
          \<lparr>create = create_tables, version = 2147483648,
           migrations = [2147483647 \<mapsto> create_tables], id' = 0\<rparr>
          (new_connection (empty_database\<lparr>user_version := 2147483647\<rparr>)))))
     = 0"
  by (simp add: migrate_def migrate_body_def foreign_keys_off_def ddl_transaction_def
      set_isolation_level_def int32_value_def create_tables_def
      and_then_def execute_def fetchone_value_def return_def raise_def call_def
      get_id_def get_version_def set_version_def get_int_pragma_def set_int_pragma_def
      foreign_key_check_def isinstance_def str_exc_def hex_int_small str_int_small
      upto_1_2 add_orphan_def new_connection_def busy_connection_def empty_database_def
      Let_def)

text \<open>
  C1 (amended): on a connection outside a transaction, for every database whose
  application id the check accepts and whose stored version \<open>v\<close> satisfies
  \<open>0 < v < target\<close>, with a target of at most \<open>2\<^sup>3\<^sup>1 - 1\<close> (the largest value the 32-bit
  \<^verbatim>\<open>user_version\<close> field of the file holds), \<open>migrate\<close> runs the loop over the steps
  \<open>v, v + 1, ..., target - 1\<close> in order, each step that runs to its end having set
  \<^verbatim>\<open>user_version\<close>, then called its migration function, then checked the foreign keys.
  The migration functions are functions of the content: they do not commit or roll
  back on their own and leave the connection's settings alone. When the steps before
  \<open>u\<close> have run to their end:
  \<^item> if \<^verbatim>\<open>migrations[u]\<close> is absent, \<open>migrate\<close> raises \<^verbatim>\<open>SchemaVersionError\<close> ("no migration
    from u to u+1; ...");
  \<^item> otherwise the migration function is run on the content with \<^verbatim>\<open>user_version\<close>
    already set to \<open>u + 1\<close>; when it raises, \<open>migrate\<close> raises the same exception;
  \<^item> when it returns and \<^verbatim>\<open>foreign_key_check\<close> finds a violation, \<open>migrate\<close> raises an
    \<^verbatim>\<open>IntegrityError\<close> whose message is "after migrating to version u+1: " followed by
    the text of the check's own error;
  \<^item> when it returns and there is no violation, the loop has run the steps up to and
    including \<open>u\<close>;
  \<^item> and when the loop has run all the steps (and the id configured, if any, is the
    stored one) \<open>migrate\<close> returns with the content the last step left.
\<close>

theorem migrate_steps:
  "\<not> in_transaction db \<and> id_accepted self db
     \<and> 0 < user_version (content db) \<and> user_version (content db) < version self
     \<and> version self \<le> 2147483647
     \<and> user_version (content db) \<le> u \<and> u < version self
     \<and> migrate_loop self (user_version (content db)) [user_version (content db)..u - 1]
           (at_loop self db) = (Inr (), reached) \<longrightarrow>
   log reached
     = log (at_loop self db) @ concat (map step_events [user_version (content db)..u - 1])
   \<and> (migrations self u = None \<longrightarrow>
        fst (migrate self db)
          = Inl (Exc SchemaVersionError
              (''no migration from '' @ str_int u @ '' to '' @ str_int (u + 1)
                @ ''; expected migrations for all versions later than ''
                @ str_int (user_version (content db))) None))
   \<and> (\<forall>m e d. migrations self u = Some m
          \<and> m ((content reached)\<lparr>user_version := u + 1\<rparr>) = (Some e, d) \<longrightarrow>
        fst (migrate self db) = Inl e)
   \<and> (\<forall>m d. migrations self u = Some m
          \<and> m ((content reached)\<lparr>user_version := u + 1\<rparr>) = (None, d)
          \<and> foreign_key_violations d \<noteq> [] \<longrightarrow>
        fst (migrate self db)
          = Inl (Exc IntegrityError
              (''after migrating to version '' @ str_int (u + 1)
                @ '': integrity error: FOREIGN KEY constraint failed'') None))
   \<and> (\<forall>m d. migrations self u = Some m
          \<and> m ((content reached)\<lparr>user_version := u + 1\<rparr>) = (None, d)
          \<and> foreign_key_violations d = [] \<longrightarrow>
        migrate_loop self (user_version (content db)) [user_version (content db)..u]
            (at_loop self db)
          = (Inr (), reached\<lparr>content := d, log := log reached @ step_events u\<rparr>))
   \<and> (\<forall>final. migrate_loop self (user_version (content db))
            [user_version (content db)..version self - 1] (at_loop self db) = (Inr (), final)
          \<and> (id' self = 0 \<or> application_id (content final) = id' self) \<longrightarrow>
        fst (migrate self db) = Inr ()
        \<and> content (snd (migrate self db)) = content final)"
proof
  let ?v = "user_version (content db)"
  let ?rest = "[u + 1..version self - 1]"
  assume a: "\<not> in_transaction db \<and> id_accepted self db
     \<and> 0 < ?v \<and> ?v < version self \<and> version self \<le> 2147483647
     \<and> ?v \<le> u \<and> u < version self
     \<and> migrate_loop self ?v [?v..u - 1] (at_loop self db) = (Inr (), reached)"
  then have out: "\<not> in_transaction db" and accepted: "id_accepted self db"
    and pos: "0 < ?v" and below: "?v < version self" and vu: "?v \<le> u"
    and ut: "u < version self" and bound: "version self \<le> 2147483647"
    and reached: "migrate_loop self ?v [?v..u - 1] (at_loop self db) = (Inr (), reached)"
    by simp_all
  from pos vu have nonneg: "0 \<le> u + 1" by simp
  from nonneg ut bound have fits: "int32_value (u + 1) = u + 1"
    by (simp add: int32_value_fits)
  note reaches = migrate_reaches[OF out accepted pos vu ut reached]
  have trace: "log reached = log (at_loop self db) @ concat (map step_events [?v..u - 1])"
    using reached by (rule migrate_loop_log)
  have missing: "migrations self u = None \<longrightarrow>
        fst (migrate self db)
          = Inl (Exc SchemaVersionError
              (''no migration from '' @ str_int u @ '' to '' @ str_int (u + 1)
                @ ''; expected migrations for all versions later than '' @ str_int ?v) None)"
  proof
    assume "migrations self u = None"
    from migrate_loop_missing[OF this, of ?v ?rest reached]
    show "fst (migrate self db)
          = Inl (Exc SchemaVersionError
              (''no migration from '' @ str_int u @ '' to '' @ str_int (u + 1)
                @ ''; expected migrations for all versions later than '' @ str_int ?v) None)"
      by (intro reaches) simp
  qed
  have raises: "\<forall>m e d. migrations self u = Some m
          \<and> m ((content reached)\<lparr>user_version := u + 1\<rparr>) = (Some e, d) \<longrightarrow>
        fst (migrate self db) = Inl e"
  proof (intro allI impI)
    fix m e d
    assume "migrations self u = Some m
          \<and> m ((content reached)\<lparr>user_version := u + 1\<rparr>) = (Some e, d)"
    then have "fst (migrate_loop self ?v (u # ?rest) reached) = Inl e"
      using migrate_loop_migration_raises[of self u m reached e d ?v ?rest] nonneg fits
      by simp
    then show "fst (migrate self db) = Inl e" by (rule reaches)
  qed
  have violation: "\<forall>m d. migrations self u = Some m
          \<and> m ((content reached)\<lparr>user_version := u + 1\<rparr>) = (None, d)
          \<and> foreign_key_violations d \<noteq> [] \<longrightarrow>
        fst (migrate self db)
          = Inl (Exc IntegrityError
              (''after migrating to version '' @ str_int (u + 1)
                @ '': integrity error: FOREIGN KEY constraint failed'') None)"
  proof (intro allI impI)
    fix m d
    assume "migrations self u = Some m
          \<and> m ((content reached)\<lparr>user_version := u + 1\<rparr>) = (None, d)
          \<and> foreign_key_violations d \<noteq> []"
    then have "fst (migrate_loop self ?v (u # ?rest) reached)
        = Inl (Exc IntegrityError
              (''after migrating to version '' @ str_int (u + 1)
                @ '': integrity error: FOREIGN KEY constraint failed'') None)"
      using migrate_loop_violation[of self u m reached d ?v ?rest] nonneg fits by simp
    then show "fst (migrate self db)
          = Inl (Exc IntegrityError
              (''after migrating to version '' @ str_int (u + 1)
                @ '': integrity error: FOREIGN KEY constraint failed'') None)"
      by (rule reaches)
  qed
  have step: "\<forall>m d. migrations self u = Some m
          \<and> m ((content reached)\<lparr>user_version := u + 1\<rparr>) = (None, d)
          \<and> foreign_key_violations d = [] \<longrightarrow>
        migrate_loop self ?v [?v..u] (at_loop self db)
          = (Inr (), reached\<lparr>content := d, log := log reached @ step_events u\<rparr>)"
  proof (intro allI impI)
    fix m d
    assume s: "migrations self u = Some m
          \<and> m ((content reached)\<lparr>user_version := u + 1\<rparr>) = (None, d)
          \<and> foreign_key_violations d = []"
    have "[?v..u] = [?v..u - 1] @ [u]" using vu by (rule upto_rec2)
    then have "migrate_loop self ?v [?v..u] (at_loop self db)
        = migrate_loop self ?v [u] reached"
      using reached by (simp add: migrate_loop_append and_then_def)
    also have "\<dots> = migrate_loop self ?v []
        (reached\<lparr>content := d, log := log reached @ step_events u\<rparr>)"
      using migrate_loop_step[of self u m reached d ?v "[]"] s nonneg fits by simp
    finally show "migrate_loop self ?v [?v..u] (at_loop self db)
          = (Inr (), reached\<lparr>content := d, log := log reached @ step_events u\<rparr>)"
      by (simp add: return_def)
  qed
  have completes: "\<forall>final. migrate_loop self ?v [?v..version self - 1] (at_loop self db)
            = (Inr (), final)
          \<and> (id' self = 0 \<or> application_id (content final) = id' self) \<longrightarrow>
        fst (migrate self db) = Inr ()
        \<and> content (snd (migrate self db)) = content final"
    using migrate_completes[OF out accepted pos below] by blast
  from trace missing raises violation step completes
  show "log reached = log (at_loop self db) @ concat (map step_events [?v..u - 1])
   \<and> (migrations self u = None \<longrightarrow>
        fst (migrate self db)
          = Inl (Exc SchemaVersionError
              (''no migration from '' @ str_int u @ '' to '' @ str_int (u + 1)
                @ ''; expected migrations for all versions later than '' @ str_int ?v) None))
   \<and> (\<forall>m e d. migrations self u = Some m
          \<and> m ((content reached)\<lparr>user_version := u + 1\<rparr>) = (Some e, d) \<longrightarrow>
        fst (migrate self db) = Inl e)
   \<and> (\<forall>m d. migrations self u = Some m
          \<and> m ((content reached)\<lparr>user_version := u + 1\<rparr>) = (None, d)
          \<and> foreign_key_violations d \<noteq> [] \<longrightarrow>
        fst (migrate self db)
          = Inl (Exc IntegrityError
              (''after migrating to version '' @ str_int (u + 1)
                @ '': integrity error: FOREIGN KEY constraint failed'') None))
   \<and> (\<forall>m d. migrations self u = Some m
          \<and> m ((content reached)\<lparr>user_version := u + 1\<rparr>) = (None, d)
          \<and> foreign_key_violations d = [] \<longrightarrow>
        migrate_loop self ?v [?v..u] (at_loop self db)
          = (Inr (), reached\<lparr>content := d, log := log reached @ step_events u\<rparr>))
   \<and> (\<forall>final. migrate_loop self ?v [?v..version self - 1] (at_loop self db)
            = (Inr (), final)
          \<and> (id' self = 0 \<or> application_id (content final) = id' self) \<longrightarrow>
        fst (migrate self db) = Inr ()
        \<and> content (snd (migrate self db)) = content final)"
    by blast
qed

theorem migrate_steps_witness:
  "fst (migrate
          \<lparr>create = create_tables, version = 3,
           migrations = [1 \<mapsto> create_tables, 2 \<mapsto> add_orphan], id' = 0\<rparr>
          (new_connection (empty_database\<lparr>user_version := 1\<rparr>)))
     = Inl (Exc IntegrityError
         ''after migrating to version 3: integrity error: FOREIGN KEY constraint failed''
         None)
   \<and> fst (migrate
          \<lparr>create = create_tables, version = 3, migrations = [1 \<mapsto> create_tables], id' = 0\<rparr>
          (new_connection (empty_database\<lparr>user_version := 1\<rparr>)))
     = Inl (Exc SchemaVersionError
         ''no migration from 2 to 3; expected migrations for all versions later than 1''
         None)"
proof -
  let ?db = "new_connection (empty_database\<lparr>user_version := 1\<rparr>)"
  let ?a = "\<lparr>create = create_tables, version = 3,
             migrations = [1 \<mapsto> create_tables, 2 \<mapsto> add_orphan], id' = 0\<rparr>"
  let ?b = "\<lparr>create = create_tables, version = 3,
             migrations = [1 \<mapsto> create_tables], id' = 0\<rparr>"
  let ?reached = "\<lparr>isolation_level = None, in_transaction = True, foreign_keys = False,
      content = \<lparr>user_version = 2, application_id = 0,
                 sqlite_master = [''feeds'', ''entries''], foreign_key_violations = []\<rparr>,
      at_begin = \<lparr>user_version = 1, application_id = 0, sqlite_master = [],
                  foreign_key_violations = []\<rparr>,
      log = [Executed PragmaForeignKeys, Executed (PragmaForeignKeysSet False),
             Executed Begin, Executed (PragmaGet ''user_version''),
             Executed (PragmaSet ''user_version'' 2), Called (Migration 1),
             Executed PragmaForeignKeyCheck]\<rparr>"
  have ha: "migrate_loop ?a 1 [1..2 - 1] (at_loop ?a ?db) = (Inr (), ?reached)"
    by (simp add: at_loop_def in_migration_def reads_before_def and_then_def execute_def
        int32_value_def
        return_def call_def set_version_def set_int_pragma_def foreign_key_check_def
        create_tables_def new_connection_def empty_database_def Let_def)
  have hb: "migrate_loop ?b 1 [1..2 - 1] (at_loop ?b ?db) = (Inr (), ?reached)"
    by (simp add: at_loop_def in_migration_def reads_before_def and_then_def execute_def
        int32_value_def
        return_def call_def set_version_def set_int_pragma_def foreign_key_check_def
        create_tables_def new_connection_def empty_database_def Let_def)
  have pre: "\<not> in_transaction ?db" "id_accepted ?a ?db" "id_accepted ?b ?db"
    "user_version (content ?db) = 1"
    by (simp_all add: new_connection_def id_accepted_def empty_database_def)
  from migrate_steps[of ?db ?a 2 ?reached] ha pre
  have a: "fst (migrate ?a ?db)
      = Inl (Exc IntegrityError
         ''after migrating to version 3: integrity error: FOREIGN KEY constraint failed''
         None)"
    by (simp add: add_orphan_def str_int_small)
  from migrate_steps[of ?db ?b 2 ?reached] hb pre
  have b: "fst (migrate ?b ?db)
      = Inl (Exc SchemaVersionError
         ''no migration from 2 to 3; expected migrations for all versions later than 1''
         None)"
    by (simp add: str_int_small)
  from a b show ?thesis by simp
qed

section \<open>Properties of the connection factory\<close>

lemma factory_init_ok: "factory_ok creator (factory_init p hook creator)"
  by (simp add: factory_ok_def factory_init_def enter_def Let_def)

lemma factory_init_local:
  "local (factory_init p hook creator) thread \<noteq> None \<Longrightarrow> thread = creator"
  by (simp add: factory_init_def enter_def Let_def split: if_splits)

lemma factory_init_path [simp]: "path (factory_init p hook creator) = p"
  by (simp add: factory_init_def enter_def Let_def)

lemma enter_ok:
  assumes "factory_ok creator self"
  shows "factory_ok creator (snd (enter self thread))"
proof (cases "local self thread")
  case (Some db)
  with assms show ?thesis by (simp add: enter_def)
next
  case None
  let ?c = "connections self"
  from assms have held: "local self creator = Some (main self)"
    and counted: "main self < ?c"
    and all_counted: "\<And>t db. local self t = Some db \<Longrightarrow> db < ?c"
    and only: "\<And>t. local self t = Some (main self) \<Longrightarrow> t = creator"
    unfolding factory_ok_def by blast+
  from None held have other: "thread \<noteq> creator" by auto
  have e: "snd (enter self thread)
      = self\<lparr>local := (local self)(thread \<mapsto> ?c), connections := Suc ?c\<rparr>"
    using None by (simp add: enter_def Let_def)
  show ?thesis
    unfolding e factory_ok_def
  proof (intro conjI allI impI)
    show "local (self\<lparr>local := (local self)(thread \<mapsto> ?c), connections := Suc ?c\<rparr>) creator
        = Some (main (self\<lparr>local := (local self)(thread \<mapsto> ?c), connections := Suc ?c\<rparr>))"
      using held other by simp
    show "main (self\<lparr>local := (local self)(thread \<mapsto> ?c), connections := Suc ?c\<rparr>)
        < connections (self\<lparr>local := (local self)(thread \<mapsto> ?c), connections := Suc ?c\<rparr>)"
      using counted by simp
  next
    fix t db
    assume "local (self\<lparr>local := (local self)(thread \<mapsto> ?c), connections := Suc ?c\<rparr>) t
        = Some db"
    then have "db = ?c \<or> local self t = Some db" by (simp split: if_splits)
    then show "db < connections
        (self\<lparr>local := (local self)(thread \<mapsto> ?c), connections := Suc ?c\<rparr>)"
      using all_counted[of t db] by auto
  next
    fix t
    assume "local (self\<lparr>local := (local self)(thread \<mapsto> ?c), connections := Suc ?c\<rparr>) t
        = Some (main (self\<lparr>local := (local self)(thread \<mapsto> ?c),
                            connections := Suc ?c\<rparr>))"
    then have "(t = thread \<and> ?c = main self) \<or> local self t = Some (main self)"
      by (simp split: if_splits)
    with counted only[of t] show "t = creator" by auto
  qed
qed

lemma close_local_keeps:
  "local (snd (close_local self thread)) = local self"
  "main (snd (close_local self thread)) = main self"
  "connections (snd (close_local self thread)) = connections self"
  "path (snd (close_local self thread)) = path self"
  by (simp_all add: close_local_def split: option.splits)

lemma close_keeps:
  "local (snd (close self thread)) = local self"
  "main (snd (close self thread)) = main self"
  "connections (snd (close self thread)) = connections self"
  "path (snd (close self thread)) = path self"
  by (simp_all add: close_def close_local_keeps)

lemma enter_keeps:
  "main (snd (enter self thread)) = main self"
  "path (snd (enter self thread)) = path self"
  by (simp_all add: enter_def Let_def split: option.splits)

lemma enter_local:
  "local (snd (enter self thread)) other \<noteq> None \<Longrightarrow>
   local self other \<noteq> None \<or> other = thread"
  by (auto simp: enter_def Let_def split: option.splits if_splits)

lemma close_local_ok:
  "factory_ok creator self \<Longrightarrow> factory_ok creator (snd (close_local self thread))"
  by (simp add: factory_ok_def close_local_keeps)

lemma close_ok:
  "factory_ok creator self \<Longrightarrow> factory_ok creator (snd (close self thread))"
  by (simp add: factory_ok_def close_keeps)

lemma after_calls_ok:
  "factory_ok creator self \<Longrightarrow> factory_ok creator (after_calls self calls)"
proof (induction self calls rule: after_calls.induct)
  case (1 self)
  then show ?case by simp
next
  case (2 self thread calls)
  then show ?case by simp
next
  case (3 self thread calls)
  then show ?case by (simp add: enter_ok)
next
  case (4 self thread calls)
  then show ?case by (simp add: exit_scope_def close_local_ok)
next
  case (5 self thread calls)
  then show ?case by (simp add: close_ok)
qed

lemma after_calls_path [simp]: "path (after_calls self calls) = path self"
  by (induction self calls rule: after_calls.induct)
     (simp_all add: enter_keeps exit_scope_def close_local_keeps close_keeps)

lemma after_calls_local:
  "local (after_calls self calls) thread \<noteq> None \<Longrightarrow>
   local self thread \<noteq> None \<or> (thread, Enter) \<in> set calls"
proof (induction self calls rule: after_calls.induct)
  case (1 self)
  then show ?case by simp
next
  case (2 self t calls)
  then show ?case by auto
next
  case (3 self t calls)
  from 3 have "local (snd (enter self t)) thread \<noteq> None \<or> (thread, Enter) \<in> set calls"
    by simp
  with enter_local[of self t thread] show ?case by auto
next
  case (4 self t calls)
  then show ?case by (auto simp: exit_scope_def close_local_keeps)
next
  case (5 self t calls)
  then show ?case by (auto simp: close_keeps)
qed

lemma enter_local_kept:
  "local self other \<noteq> None \<Longrightarrow> local (snd (enter self thread)) other \<noteq> None"
  by (simp add: enter_def Let_def split: option.splits)

lemma enter_local_set: "local (snd (enter self thread)) thread \<noteq> None"
  by (simp add: enter_def Let_def split: option.splits)

lemma after_calls_local_kept:
  "local self thread \<noteq> None \<Longrightarrow> local (after_calls self calls) thread \<noteq> None"
proof (induction self calls rule: after_calls.induct)
  case (3 self t calls)
  then show ?case using enter_local_kept[of self thread t] by simp
qed (simp_all add: exit_scope_def close_local_keeps close_keeps)

lemma after_calls_entered:
  "(thread, Enter) \<in> set calls \<Longrightarrow> local (after_calls self calls) thread \<noteq> None"
proof (induction self calls rule: after_calls.induct)
  case (1 self)
  then show ?case by simp
next
  case (2 self t calls)
  then show ?case by simp
next
  case (3 self t calls)
  show ?case
  proof (cases "t = thread")
    case True
    then show ?thesis
      using after_calls_local_kept[OF enter_local_set, of self thread calls] by simp
  next
    case False
    with 3 show ?thesis by simp
  qed
next
  case (4 self t calls)
  then show ?case by simp
next
  case (5 self t calls)
  then show ?case by simp
qed

text \<open>
  C6 (the failing input): thread 0 creates a factory for the file \<^verbatim>\<open>feeds.sqlite\<close>; thread 1
  enters a \<^verbatim>\<open>with\<close> statement on it, leaves it, and then calls \<^verbatim>\<open>get()\<close>. The thread is
  outside scoped acquisition, and the claim has the call raise \<^verbatim>\<open>UsageError\<close>, as the
  docstring of the class has it ("Other threads must use a with statement; calling get()
  outside one results in an error"). But \<^verbatim>\<open>__exit__\<close> closes the connection of thread 1
  and leaves it in \<^verbatim>\<open>_local\<close>: \<^verbatim>\<open>get()\<close> finds it there and returns it, closed, and raises
  nothing.
\<close>

theorem factory_get_after_exit:
  "get (after_calls (factory_init ''feeds.sqlite'' (\<lambda>_. None) 0) [(1, Enter), (1, Exit)]) 1
     = Inr 1
   \<and> 1 \<in> closed (after_calls (factory_init ''feeds.sqlite'' (\<lambda>_. None) 0)
                   [(1, Enter), (1, Exit)])
   \<and> get (after_calls (factory_init ''feeds.sqlite'' (\<lambda>_. None) 0) [(1, Enter)]) 1
     = Inr 1
   \<and> 1 \<notin> closed (after_calls (factory_init ''feeds.sqlite'' (\<lambda>_. None) 0) [(1, Enter)])"
  by (simp add: get_def exit_scope_def close_local_def factory_init_def enter_def
      is_private_def Let_def)

text \<open>
  What the code does keep of C6, after the constructor and any sequence of calls by any
  threads:
  \<^item> \<^verbatim>\<open>get()\<close> from a thread in which \<^verbatim>\<open>__enter__\<close> has never run (it is not the creating
    thread, where the constructor runs it, and has entered no \<^verbatim>\<open>with\<close> statement) raises
    \<^verbatim>\<open>UsageError\<close>;
  \<^item> \<^verbatim>\<open>close()\<close> from any thread other than the creating thread raises \<^verbatim>\<open>UsageError\<close> and
    closes nothing;
  \<^item> for the private paths \<^verbatim>\<open>""\<close> and \<^verbatim>\<open>":memory:"\<close>, \<^verbatim>\<open>get()\<close> from any thread other than the
    creating thread raises \<^verbatim>\<open>UsageError\<close>, also when the thread has entered scoped
    acquisition and so holds a connection of its own.
  And the failing input above is no accident of that input: for a path that is not
  private, \<^verbatim>\<open>get()\<close> returns a connection to every thread in which \<^verbatim>\<open>__enter__\<close> has ever
  run, inside a \<^verbatim>\<open>with\<close> statement or after it.
\<close>

theorem factory_usage_errors:
  "(\<not> has_ever_entered creator calls thread \<longrightarrow>
      get (after_calls (factory_init p hook creator) calls) thread
        = Inl (Exc UsageError
            (''must be used as a context manager ''
              @ ''when using from threads other than the creating thread'') None))
   \<and> (thread \<noteq> creator \<longrightarrow>
        close (after_calls (factory_init p hook creator) calls) thread
          = (Some (Exc UsageError
               (''cannot close() from threads other than the creating thread, ''
                 @ ''use as a context manager'') None),
             after_calls (factory_init p hook creator) calls))
   \<and> (is_private p \<and> thread \<noteq> creator \<and> has_ever_entered creator calls thread \<longrightarrow>
        get (after_calls (factory_init p hook creator) calls) thread
          = Inl (Exc UsageError
              (''cannot use a private database ''
                @ ''from threads other than the creating thread'') None))
   \<and> (is_private p \<and> thread \<noteq> creator \<longrightarrow>
        (\<exists>message. get (after_calls (factory_init p hook creator) calls) thread
           = Inl (Exc UsageError message None)))
   \<and> (\<not> is_private p \<and> has_ever_entered creator calls thread \<longrightarrow>
        (\<exists>db. get (after_calls (factory_init p hook creator) calls) thread = Inr db))"
proof -
  let ?f = "after_calls (factory_init p hook creator) calls"
  have ok: "factory_ok creator ?f"
    by (intro after_calls_ok factory_init_ok)
  have never: "local ?f thread = None" if "\<not> has_ever_entered creator calls thread"
  proof (rule ccontr)
    assume "local ?f thread \<noteq> None"
    from after_calls_local[OF this]
    have "local (factory_init p hook creator) thread \<noteq> None \<or> (thread, Enter) \<in> set calls" .
    then show False
    proof
      assume "local (factory_init p hook creator) thread \<noteq> None"
      then have "thread = creator" by (rule factory_init_local)
      with that show False by (simp add: has_ever_entered_def)
    next
      assume "(thread, Enter) \<in> set calls"
      with that show False by (simp add: has_ever_entered_def)
    qed
  qed
  have held: "local ?f thread \<noteq> None" if "has_ever_entered creator calls thread"
  proof (cases "thread = creator")
    case True
    with ok show ?thesis unfolding factory_ok_def by simp
  next
    case False
    with that have "(thread, Enter) \<in> set calls" by (simp add: has_ever_entered_def)
    then show ?thesis by (rule after_calls_entered)
  qed
  have other: "local ?f thread \<noteq> Some (main ?f)" if "thread \<noteq> creator"
  proof
    assume "local ?f thread = Some (main ?f)"
    with ok have "thread = creator" unfolding factory_ok_def by blast
    with that show False by simp
  qed
  have a: "\<not> has_ever_entered creator calls thread \<longrightarrow>
      get ?f thread
        = Inl (Exc UsageError
            (''must be used as a context manager ''
              @ ''when using from threads other than the creating thread'') None)"
    using never by (simp add: get_def)
  have b: "thread \<noteq> creator \<longrightarrow>
        close ?f thread
          = (Some (Exc UsageError
               (''cannot close() from threads other than the creating thread, ''
                 @ ''use as a context manager'') None), ?f)"
    using other by (simp add: close_def)
  have c: "is_private p \<and> thread \<noteq> creator \<and> has_ever_entered creator calls thread \<longrightarrow>
        get ?f thread
          = Inl (Exc UsageError
              (''cannot use a private database ''
                @ ''from threads other than the creating thread'') None)"
  proof
    assume h: "is_private p \<and> thread \<noteq> creator \<and> has_ever_entered creator calls thread"
    with held obtain db where db: "local ?f thread = Some db" by blast
    with other h have "db \<noteq> main ?f" by simp
    with db h show "get ?f thread
          = Inl (Exc UsageError
              (''cannot use a private database ''
                @ ''from threads other than the creating thread'') None)"
      by (simp add: get_def)
  qed
  have d: "is_private p \<and> thread \<noteq> creator \<longrightarrow>
        (\<exists>message. get ?f thread = Inl (Exc UsageError message None))"
    using a c by (cases "has_ever_entered creator calls thread") auto
  have e: "\<not> is_private p \<and> has_ever_entered creator calls thread \<longrightarrow>
        (\<exists>db. get ?f thread = Inr db)"
  proof
    assume h: "\<not> is_private p \<and> has_ever_entered creator calls thread"
    with held obtain db where "local ?f thread = Some db" by blast
    with h show "\<exists>db. get ?f thread = Inr db" by (simp add: get_def)
  qed
  from a b c d e show ?thesis by blast
qed

theorem factory_usage_errors_witness:
  "get (after_calls (factory_init '':memory:'' (\<lambda>_. None) 0) [(1, Enter)]) 2
     = Inl (Exc UsageError
         ''must be used as a context manager when using from threads other than the creating thread''
         None)
   \<and> get (after_calls (factory_init '':memory:'' (\<lambda>_. None) 0) [(1, Enter)]) 1
     = Inl (Exc UsageError
         ''cannot use a private database from threads other than the creating thread'' None)
   \<and> fst (close (after_calls (factory_init ''feeds.sqlite'' (\<lambda>_. None) 0) [(1, Enter)]) 1)
     = Some (Exc UsageError
         ''cannot close() from threads other than the creating thread, use as a context manager''
         None)
   \<and> get (after_calls (factory_init '':memory:'' (\<lambda>_. None) 0) [(1, Enter)]) 0 = Inr 0
   \<and> get (after_calls (factory_init ''feeds.sqlite'' (\<lambda>_. None) 0)
          [(1, Enter), (1, Exit)]) 1 = Inr 1"
  using factory_usage_errors
          [where creator = 0 and calls = "[(1, Enter)]" and thread = 2
             and p = "'':memory:''" and hook = "\<lambda>_. None"]
        factory_usage_errors
          [where creator = 0 and calls = "[(1, Enter)]" and thread = 1
             and p = "'':memory:''" and hook = "\<lambda>_. None"]
        factory_usage_errors
          [where creator = 0 and calls = "[(1, Enter)]" and thread = 1
             and p = "''feeds.sqlite''" and hook = "\<lambda>_. None"]
        factory_usage_errors
          [where creator = 0 and calls = "[(1, Enter), (1, Exit)]" and thread = 1
             and p = "''feeds.sqlite''" and hook = "\<lambda>_. None"]
  by (simp add: has_ever_entered_def is_private_def get_def close_def exit_scope_def
      close_local_def factory_init_def enter_def Let_def)

end
